theory Spec2Isabelle
  imports Main
begin

section \<open>Values exchanged with the clients\<close>

text \<open>
  The gateway receives JSON bodies from socket.io clients. A payload is a JSON value;
  numbers are represented by their integer cases, which is all that JavaScript's
  truthiness test and the \<^verbatim>\<open>typeof\<close> test of the gateway look at.
\<close>

datatype json =
    JNull
  | JBool bool
  | JNum int
  | JString string
  | JArray "json list"
  | JObject "(string \<times> json) list"

text \<open>JavaScript truthiness of a JSON value, as tested by \<^verbatim>\<open>body.data ? ... : ''\<close>.\<close>

fun truthy :: "json \<Rightarrow> bool" where
  "truthy JNull = False"
| "truthy (JBool b) = b"
| "truthy (JNum n) = (n \<noteq> 0)"
| "truthy (JString s) = (s \<noteq> [])"
| "truthy (JArray xs) = True"
| "truthy (JObject kvs) = True"

text \<open>
  An optional string field: \<open>None\<close> is \<^verbatim>\<open>undefined\<close>. The field is truthy when
  it is present and not the empty string; inside a template literal an absent field
  prints as \<^verbatim>\<open>undefined\<close>.
\<close>

definition truthy_str :: "string option \<Rightarrow> bool" where
  "truthy_str f = (case f of None \<Rightarrow> False | Some s \<Rightarrow> s \<noteq> [])"

definition tmpl :: "string option \<Rightarrow> string" where
  "tmpl f = (case f of None \<Rightarrow> ''undefined'' | Some s \<Rightarrow> s)"

text \<open>\<^verbatim>\<open>a || b\<close> on optional strings.\<close>

definition or_js :: "string option \<Rightarrow> string option \<Rightarrow> string option" where
  "or_js a b = (if truthy_str a then a else b)"

text \<open>
  \<^verbatim>\<open>String.prototype.toLowerCase\<close> on the ASCII letters; the signal names of the
  gateway are ASCII, and the characters of \<open>string\<close> stand for code units.
\<close>

definition lower_char :: "char \<Rightarrow> char" where
  "lower_char c =
     (case map_of (zip ''ABCDEFGHIJKLMNOPQRSTUVWXYZ'' ''abcdefghijklmnopqrstuvwxyz'') c of
        None \<Rightarrow> c
      | Some d \<Rightarrow> d)"

definition toLowerCase :: "string \<Rightarrow> string" where
  "toLowerCase s = map lower_char s"

text \<open>The body of a \<^verbatim>\<open>sendText\<close> event: a chat message or a WebRTC signal.\<close>

record body =
  messageType :: "string option"
  signalType :: "string option"
  senderId :: "string option"
  targetId :: "string option"
  roomId :: "string option"
  data :: "json option"
  content :: "string option"

text \<open>The body of a \<^verbatim>\<open>signal\<close> event.\<close>

record signal_body =
  sig_roomId :: "string option"
  sig_senderModel :: "string option"
  sig_senderId :: "string option"
  sig_type :: "string option"
  sig_payload :: "json option"

text \<open>The verified token payload stored in \<^verbatim>\<open>client.data.user\<close>.\<close>

record jwt =
  jwt_id :: "string option"
  sub :: "string option"
  userId :: "string option"

text \<open>\<^verbatim>\<open>payload.id || payload.sub || payload.userId\<close>\<close>

definition userId_of :: "jwt \<Rightarrow> string option" where
  "userId_of p = or_js (or_js (jwt_id p) (sub p)) (userId p)"

record handshake =
  auth_token :: "string option"
  query_token :: "string option"

text \<open>
  A live socket of the transport: its id, \<^verbatim>\<open>client.data.user\<close> and the rooms it has
  joined (a JavaScript \<^verbatim>\<open>Set\<close>, kept as a list in insertion order).
\<close>

record socket =
  sid :: string
  user :: "jwt option"
  rooms :: "string list"

text \<open>What is emitted to a socket: the event name and its data.\<close>

datatype 'm emitted =
    Body body
  | Message 'm
  | Presence string string "string option"
  | Other json

type_synonym 'm emission = "string \<times> string \<times> 'm emitted"

text \<open>What a handler returns to its caller.\<close>

datatype 'm reply =
    Error string
  | OkRoom "string option"
  | OkType string bool
  | Persisted 'm
  | OkMessage 'm

text \<open>
  The collaborators of the gateway, which are not part of it: the message service
  (\<open>Inl\<close> is the message of the error it throws), token verification (\<open>None\<close> when
  \<^verbatim>\<open>verify\<close> throws) and \<^verbatim>\<open>JSON.stringify\<close> (\<open>None\<close> when it throws or
  returns \<^verbatim>\<open>undefined\<close>, on which \<^verbatim>\<open>.slice\<close> throws).
\<close>

record 'm env =
  messageService_sendText :: "body \<Rightarrow> jwt \<Rightarrow> string + 'm"
  messageService_sendSignal :: "signal_body \<Rightarrow> jwt \<Rightarrow> string + 'm"
  jwtService_verify :: "string \<Rightarrow> jwt option"
  JSON_stringify :: "json \<Rightarrow> string option"

text \<open>A call made to the message service.\<close>

datatype service_call = SendText body jwt | SendSignal signal_body jwt

section \<open>The state of the gateway\<close>

text \<open>
  \<open>userSockets\<close> maps a user id to the \<^verbatim>\<open>Set\<close> of its socket ids (a list in insertion
  order), \<open>recentSignals\<close> maps a dedup key to the time it was last recorded,
  \<open>sockets\<close> is the transport's table of live sockets
  (\<^verbatim>\<open>server.sockets.sockets\<close>) and \<open>service_calls\<close> records the calls made to the
  message service.
\<close>

record state =
  userSockets :: "string \<rightharpoonup> string list"
  recentSignals :: "string \<rightharpoonup> int"
  sockets :: "socket list"
  service_calls :: "service_call list"

definition init :: state where
  "init = \<lparr>userSockets = Map.empty, recentSignals = Map.empty, sockets = [],
            service_calls = []\<rparr>"

definition roomScopedSignals :: "string list" where
  "roomScopedSignals =
     [''call-accepted'', ''call-rejected'', ''call-ended'', ''offer'', ''answer'',
      ''ice-candidate'']"

definition multiTargetSignals :: "string list" where
  "multiTargetSignals = [''call-request'']"

definition dedupSignals :: "string list" where
  "dedupSignals =
     [''call-request'', ''call-accepted'', ''call-rejected'', ''call-ended'', ''offer'',
      ''answer'']"

definition dedupWindowMs :: int where
  "dedupWindowMs = 1000"

section \<open>The deduplication cache\<close>

text \<open>
  \<^verbatim>\<open>hashPayload\<close>: a string payload is cut to 64 characters; any other payload is
  serialised first, and an exception gives the empty string.
\<close>

definition hashPayload :: "'m env \<Rightarrow> json \<Rightarrow> string" where
  "hashPayload e payload =
     (case payload of
        JString s \<Rightarrow> take 64 s
      | _ \<Rightarrow> (case JSON_stringify e payload of None \<Rightarrow> [] | Some s \<Rightarrow> take 64 s))"

text \<open>\<^verbatim>\<open>body.data ? this.hashPayload(body.data) : ''\<close>\<close>

definition payloadHash :: "'m env \<Rightarrow> body \<Rightarrow> string" where
  "payloadHash e b =
     (case data b of
        None \<Rightarrow> []
      | Some p \<Rightarrow> if truthy p then hashPayload e p else [])"

text \<open>The key built by \<^verbatim>\<open>isDuplicateSignal\<close>.\<close>

definition dedupKey :: "'m env \<Rightarrow> string \<Rightarrow> body \<Rightarrow> string" where
  "dedupKey e t b =
     t @ ''|'' @ tmpl (senderId b) @ ''|'' @ tmpl (targetId b) @ ''|'' @ tmpl (roomId b)
       @ ''|'' @ payloadHash e b"

text \<open>
  \<^verbatim>\<open>cleanupRecentSignals\<close>: every entry with \<open>now - timestamp > dedupWindowMs * 2\<close>
  is deleted.
\<close>

definition cleanupRecentSignals :: "int \<Rightarrow> (string \<rightharpoonup> int) \<Rightarrow> (string \<rightharpoonup> int)" where
  "cleanupRecentSignals now m =
     (\<lambda>k. case m k of
            None \<Rightarrow> None
          | Some timestamp \<Rightarrow>
              if now - timestamp > dedupWindowMs * 2 then None else Some timestamp)"

text \<open>
  \<^verbatim>\<open>isDuplicateSignal\<close>, with \<open>now\<close> the value of \<^verbatim>\<open>Date.now()\<close>. The test
  \<^verbatim>\<open>lastSeen && ...\<close> is false for a missing entry and for the timestamp 0.
\<close>

definition isDuplicateSignal :: "'m env \<Rightarrow> int \<Rightarrow> state \<Rightarrow> string \<Rightarrow> body \<Rightarrow> bool \<times> state" where
  "isDuplicateSignal e now st t b =
     (if t \<notin> set dedupSignals then (False, st)
      else
        let key = dedupKey e t b in
        (case recentSignals st key of
           Some lastSeen \<Rightarrow>
             if lastSeen \<noteq> 0 \<and> now - lastSeen < dedupWindowMs then (True, st)
             else (False, st\<lparr>recentSignals :=
                     cleanupRecentSignals now ((recentSignals st)(key \<mapsto> now))\<rparr>)
         | None \<Rightarrow>
             (False, st\<lparr>recentSignals :=
                cleanupRecentSignals now ((recentSignals st)(key \<mapsto> now))\<rparr>)))"

section \<open>The transport\<close>

text \<open>
  The operations of socket.io that the gateway calls. \<^verbatim>\<open>server.sockets.sockets.get(id)\<close>
  finds a live socket; \<^verbatim>\<open>server.to(room).emit\<close> reaches every socket in the room,
  \<^verbatim>\<open>client.to(room).emit\<close> every socket in the room but the client itself.
\<close>

definition find_socket :: "socket list \<Rightarrow> string \<Rightarrow> socket option" where
  "find_socket socks i = find (\<lambda>s. sid s = i) socks"

definition server_to :: "state \<Rightarrow> string \<Rightarrow> string \<Rightarrow> 'm emitted \<Rightarrow> 'm emission list" where
  "server_to st room ev d =
     map (\<lambda>s. (sid s, ev, d)) (filter (\<lambda>s. room \<in> set (rooms s)) (sockets st))"

definition client_to :: "state \<Rightarrow> socket \<Rightarrow> string \<Rightarrow> string \<Rightarrow> 'm emitted \<Rightarrow> 'm emission list" where
  "client_to st client room ev d =
     map (\<lambda>s. (sid s, ev, d))
       (filter (\<lambda>s. room \<in> set (rooms s) \<and> sid s \<noteq> sid client) (sockets st))"

text \<open>\<^verbatim>\<open>Set.prototype.add\<close> and \<^verbatim>\<open>Set.prototype.delete\<close> on a set kept in insertion order.\<close>

definition set_add :: "'a \<Rightarrow> 'a list \<Rightarrow> 'a list" where
  "set_add x xs = (if x \<in> set xs then xs else xs @ [x])"

definition set_delete :: "'a \<Rightarrow> 'a list \<Rightarrow> 'a list" where
  "set_delete x xs = removeAll x xs"

text \<open>\<^verbatim>\<open>client.join\<close>, \<^verbatim>\<open>client.leave\<close> and the assignment to \<^verbatim>\<open>client.data.user\<close>.\<close>

definition join :: "string \<Rightarrow> string \<Rightarrow> socket list \<Rightarrow> socket list" where
  "join i room socks =
     map (\<lambda>s. if sid s = i then s\<lparr>rooms := set_add room (rooms s)\<rparr> else s) socks"

definition leave :: "string \<Rightarrow> string \<Rightarrow> socket list \<Rightarrow> socket list" where
  "leave i room socks =
     map (\<lambda>s. if sid s = i then s\<lparr>rooms := set_delete room (rooms s)\<rparr> else s) socks"

definition set_user :: "string \<Rightarrow> jwt \<Rightarrow> socket list \<Rightarrow> socket list" where
  "set_user i p socks = map (\<lambda>s. if sid s = i then s\<lparr>user := Some p\<rparr> else s) socks"

section \<open>The connection registry\<close>

text \<open>\<^verbatim>\<open>this.userSockets.get(userId)\<close>, the empty set when there is no entry.\<close>

definition connectionsFor :: "state \<Rightarrow> string \<Rightarrow> string list" where
  "connectionsFor st u = (case userSockets st u of None \<Rightarrow> [] | Some ids \<Rightarrow> ids)"

definition isUserOnline :: "state \<Rightarrow> string \<Rightarrow> bool" where
  "isUserOnline st u = (case userSockets st u of None \<Rightarrow> False | Some ids \<Rightarrow> length ids > 0)"

text \<open>
  \<^verbatim>\<open>handleConnection\<close>: with a token that verifies, the payload is stored on the socket
  and the socket id is added to the set of the payload's user id.
\<close>

definition handleConnection :: "'m env \<Rightarrow> state \<Rightarrow> socket \<Rightarrow> handshake \<Rightarrow> state" where
  "handleConnection e st client hs =
     (case or_js (auth_token hs) (query_token hs) of
        None \<Rightarrow> st
      | Some token \<Rightarrow>
          if token = [] then st
          else
            (case jwtService_verify e token of
               None \<Rightarrow> st
             | Some payload \<Rightarrow>
                 let st1 = st\<lparr>sockets := set_user (sid client) payload (sockets st)\<rparr> in
                 (case userId_of payload of
                    None \<Rightarrow> st1
                  | Some uid \<Rightarrow>
                      if uid = [] then st1
                      else st1\<lparr>userSockets := (userSockets st1)
                             (uid \<mapsto> set_add (sid client) (connectionsFor st1 uid))\<rparr>)))"

text \<open>
  \<^verbatim>\<open>handleDisconnect\<close>: the socket id leaves the set of its user id, and the entry
  is deleted when the set becomes empty.
\<close>

definition handleDisconnect :: "state \<Rightarrow> socket \<Rightarrow> state" where
  "handleDisconnect st client =
     (case user client of
        None \<Rightarrow> st
      | Some u \<Rightarrow>
          (case userId_of u of
             None \<Rightarrow> st
           | Some uid \<Rightarrow>
               if uid = [] then st
               else
                 (case userSockets st uid of
                    None \<Rightarrow> st
                  | Some ids \<Rightarrow>
                      let ids' = set_delete (sid client) ids in
                      if length ids' = 0 then st\<lparr>userSockets := (userSockets st)(uid := None)\<rparr>
                      else st\<lparr>userSockets := (userSockets st)(uid \<mapsto> ids')\<rparr>)))"

section \<open>Rooms and presence\<close>

definition roomName_of :: "string option \<Rightarrow> string" where
  "roomName_of r = ''room:'' @ tmpl r"

definition onJoinRoom :: "state \<Rightarrow> socket \<Rightarrow> string option \<Rightarrow> 'm reply \<times> 'm emission list \<times> state" where
  "onJoinRoom st client r =
     (case user client of
        None \<Rightarrow> (Error ''Unauthorized'', [], st)
      | Some u \<Rightarrow>
          let st1 = st\<lparr>sockets := join (sid client) (roomName_of r) (sockets st)\<rparr> in
          (OkRoom r,
           server_to st1 (roomName_of r) ''presence'' (Presence (sid client) ''joined'' r),
           st1))"

definition onLeaveRoom :: "state \<Rightarrow> socket \<Rightarrow> string option \<Rightarrow> 'm reply \<times> 'm emission list \<times> state" where
  "onLeaveRoom st client r =
     (let st1 = st\<lparr>sockets := leave (sid client) (roomName_of r) (sockets st)\<rparr> in
      (OkRoom r,
       server_to st1 (roomName_of r) ''presence'' (Presence (sid client) ''left'' r),
       st1))"

section \<open>Targeted delivery\<close>

record options =
  opt_roomId :: "string option"
  opt_multi :: "bool option"

text \<open>
  The loop of \<^verbatim>\<open>sendToUser\<close> over the candidates. The accumulator holds the set
  \<^verbatim>\<open>socketIds\<close>, the sockets emitted to so far and the flag \<^verbatim>\<open>delivered\<close>. A candidate
  that is no longer live is deleted from the set; one outside the room is skipped;
  without \<^verbatim>\<open>multi\<close> the loop stops at the first emit.
\<close>

fun sendToUser_loop ::
  "socket list \<Rightarrow> string option \<Rightarrow> bool \<Rightarrow> string list \<Rightarrow>
   string list \<times> string list \<times> bool \<Rightarrow> string list \<times> string list \<times> bool" where
  "sendToUser_loop socks roomName multi [] acc = acc"
| "sendToUser_loop socks roomName multi (socketId # candidates) (socketIds, out, delivered) =
     (case find_socket socks socketId of
        None \<Rightarrow>
          sendToUser_loop socks roomName multi candidates
            (set_delete socketId socketIds, out, delivered)
      | Some s \<Rightarrow>
          if (case roomName of None \<Rightarrow> False | Some r \<Rightarrow> r \<notin> set (rooms s)) then
            sendToUser_loop socks roomName multi candidates (socketIds, out, delivered)
          else if \<not> multi then (socketIds, out @ [socketId], True)
          else sendToUser_loop socks roomName multi candidates
                 (socketIds, out @ [socketId], True))"

text \<open>
  The two options of \<^verbatim>\<open>sendToUser\<close>:
  \<^verbatim>\<open>options?.roomId ? `room:${options.roomId}` : undefined\<close> and
  \<^verbatim>\<open>options?.multi ?? true\<close>.
\<close>

definition roomName_option :: "options option \<Rightarrow> string option" where
  "roomName_option opts =
     (case opts of
        None \<Rightarrow> None
      | Some opt \<Rightarrow>
          if truthy_str (opt_roomId opt) then Some (roomName_of (opt_roomId opt)) else None)"

definition multi_option :: "options option \<Rightarrow> bool" where
  "multi_option opts =
     (case opts of
        None \<Rightarrow> True
      | Some opt \<Rightarrow> (case opt_multi opt of None \<Rightarrow> True | Some m \<Rightarrow> m))"

definition sendToUser ::
  "state \<Rightarrow> string \<Rightarrow> string \<Rightarrow> 'm emitted \<Rightarrow> options option \<Rightarrow>
   bool \<times> 'm emission list \<times> state" where
  "sendToUser st uid ev d opts =
     (case userSockets st uid of
        None \<Rightarrow> (False, [], st)
      | Some socketIds \<Rightarrow>
          if length socketIds > 0 then
            (let roomName = roomName_option opts;
                 multi = multi_option opts;
                 candidates = rev socketIds;
                 (socketIds', out, delivered) =
                   sendToUser_loop (sockets st) roomName multi candidates
                     (socketIds, [], False)
             in (delivered,
                 map (\<lambda>i. (i, ev, d)) out,
                 if length socketIds' = 0
                 then st\<lparr>userSockets := (userSockets st)(uid := None)\<rparr>
                 else st\<lparr>userSockets := (userSockets st)(uid \<mapsto> socketIds')\<rparr>))
          else (False, [], st))"

definition sendMessageToUser ::
  "state \<Rightarrow> string \<Rightarrow> string \<Rightarrow> 'm emitted \<Rightarrow> options option \<Rightarrow>
   bool \<times> 'm emission list \<times> state" where
  "sendMessageToUser st uid ev d opts = sendToUser st uid ev d opts"

definition broadcastMessage :: "state \<Rightarrow> string option \<Rightarrow> 'm \<Rightarrow> 'm emission list" where
  "broadcastMessage st r m = server_to st (roomName_of r) ''newMessage'' (Message m)"

section \<open>Chat and signal routing\<close>

text \<open>
  \<^verbatim>\<open>onSendText\<close>, with \<open>now\<close> the value \<^verbatim>\<open>Date.now()\<close> returns during the call. The
  result is the value returned to the caller, the emissions in order, and the new
  state. The call of the message service is the only suspension point; the room is
  read when the emit runs.
\<close>

definition onSendText ::
  "'m env \<Rightarrow> int \<Rightarrow> state \<Rightarrow> socket \<Rightarrow> body \<Rightarrow> 'm reply \<times> 'm emission list \<times> state" where
  "onSendText e now st client b =
     (case user client of
        None \<Rightarrow> (Error ''Unauthorized'', [], st)
      | Some u \<Rightarrow>
          if messageType b = Some ''webrtc_signal'' then
            (let normalizedSignalType =
                   toLowerCase (case signalType b of None \<Rightarrow> [] | Some s \<Rightarrow> s);
                 (dup, st1) = isDuplicateSignal e now st normalizedSignalType b
             in if dup then (OkType ''webrtc_signal'' True, [], st1)
                else if truthy_str (targetId b) then
                  (let (sent, out, st2) =
                         sendToUser st1 (tmpl (targetId b)) ''newMessage'' (Body b)
                           (Some \<lparr>opt_roomId =
                                    (if normalizedSignalType \<in> set roomScopedSignals
                                     then roomId b else None),
                                  opt_multi =
                                    Some (normalizedSignalType \<in> set multiTargetSignals)\<rparr>)
                   in if sent then (OkType ''webrtc_signal'' False, out, st2)
                      else (OkType ''webrtc_signal'' False,
                            out @ client_to st2 client (roomName_of (roomId b))
                                    ''newMessage'' (Body b),
                            st2))
                else (OkType ''webrtc_signal'' False,
                      client_to st1 client (roomName_of (roomId b)) ''newMessage'' (Body b),
                      st1))
          else
            (let st1 = st\<lparr>service_calls := service_calls st @ [SendText b u]\<rparr> in
             (case messageService_sendText e b u of
                Inl err \<Rightarrow> (Error err, [], st1)
              | Inr msg \<Rightarrow>
                  (Persisted msg,
                   server_to st1 (roomName_of (roomId b)) ''newMessage'' (Message msg),
                   st1))))"

text \<open>\<^verbatim>\<open>onSignal\<close>: the call-negotiation variant, always sent to the room but the sender.\<close>

definition onSignal ::
  "'m env \<Rightarrow> state \<Rightarrow> socket \<Rightarrow> signal_body \<Rightarrow> 'm reply \<times> 'm emission list \<times> state" where
  "onSignal e st client sb =
     (case user client of
        None \<Rightarrow> (Error ''Unauthorized'', [], st)
      | Some u \<Rightarrow>
          (let st1 = st\<lparr>service_calls := service_calls st @ [SendSignal sb u]\<rparr> in
           (case messageService_sendSignal e sb u of
              Inl err \<Rightarrow> (Error err, [], st1)
            | Inr message \<Rightarrow>
                (OkMessage message,
                 client_to st1 client (roomName_of (sig_roomId sb)) ''signal'' (Message message),
                 st1))))"

section \<open>Runs of the gateway\<close>

text \<open>
  The events that drive the gateway. The transport gives a new connection an id that no
  live socket has, and removes a socket from its table before the disconnect handler
  runs; an event of a socket that is not live does not occur and leaves the state as
  it is.
\<close>

datatype 'm event =
    Connect string handshake
  | Disconnect string
  | JoinRoom string "string option"
  | LeaveRoom string "string option"
  | SendTextEv string body int
  | SignalEv string signal_body
  | SendToUserEv string string "'m emitted" "options option"

fun step :: "'m env \<Rightarrow> state \<Rightarrow> 'm event \<Rightarrow> state" where
  "step e st (Connect i hs) =
     (case find_socket (sockets st) i of
        Some s \<Rightarrow> st
      | None \<Rightarrow>
          let client = \<lparr>sid = i, user = None, rooms = []\<rparr> in
          handleConnection e (st\<lparr>sockets := sockets st @ [client]\<rparr>) client hs)"
| "step e st (Disconnect i) =
     (case find_socket (sockets st) i of
        None \<Rightarrow> st
      | Some client \<Rightarrow>
          handleDisconnect (st\<lparr>sockets := filter (\<lambda>s. sid s \<noteq> i) (sockets st)\<rparr>) client)"
| "step e st (JoinRoom i r) =
     (case find_socket (sockets st) i of
        None \<Rightarrow> st
      | Some client \<Rightarrow> snd (snd (onJoinRoom st client r :: 'm reply \<times> 'm emission list \<times> state)))"
| "step e st (LeaveRoom i r) =
     (case find_socket (sockets st) i of
        None \<Rightarrow> st
      | Some client \<Rightarrow> snd (snd (onLeaveRoom st client r :: 'm reply \<times> 'm emission list \<times> state)))"
| "step e st (SendTextEv i b now) =
     (case find_socket (sockets st) i of
        None \<Rightarrow> st
      | Some client \<Rightarrow> snd (snd (onSendText e now st client b)))"
| "step e st (SignalEv i sb) =
     (case find_socket (sockets st) i of
        None \<Rightarrow> st
      | Some client \<Rightarrow> snd (snd (onSignal e st client sb)))"
| "step e st (SendToUserEv uid ev d opts) = snd (snd (sendMessageToUser st uid ev d opts))"

definition run :: "'m env \<Rightarrow> 'm event list \<Rightarrow> state" where
  "run e evs = foldl (step e) init evs"

section \<open>Notions used to state the properties\<close>

text \<open>
  A socket id is eligible for a targeted delivery when it belongs to a live socket
  that is in the room, if the delivery is scoped to a room. The candidates of a user
  are its eligible socket ids, newest registration first.
\<close>

definition eligible :: "socket list \<Rightarrow> string option \<Rightarrow> string \<Rightarrow> bool" where
  "eligible socks roomName i =
     (case find_socket socks i of
        None \<Rightarrow> False
      | Some s \<Rightarrow> (case roomName of None \<Rightarrow> True | Some r \<Rightarrow> r \<in> set (rooms s)))"

definition candidates_of :: "state \<Rightarrow> string \<Rightarrow> string option \<Rightarrow> string list" where
  "candidates_of st uid roomName =
     filter (eligible (sockets st) roomName) (rev (connectionsFor st uid))"

text \<open>The normalised signal type of a body: \<^verbatim>\<open>(body.signalType ?? '').toLowerCase()\<close>.\<close>

definition normalized :: "body \<Rightarrow> string" where
  "normalized b = toLowerCase (case signalType b of None \<Rightarrow> [] | Some s \<Rightarrow> s)"

text \<open>
  The room a targeted signal is scoped to: the room of the body when the type is
  room-scoped and the room id is truthy, no room otherwise.
\<close>

definition scope_of :: "body \<Rightarrow> string option" where
  "scope_of b =
     (if normalized b \<in> set roomScopedSignals \<and> truthy_str (roomId b)
      then Some (roomName_of (roomId b)) else None)"

text \<open>
  The payload prefix as the specification words it: the payload itself when it is a
  string, otherwise its JSON serialisation, and the empty string when the
  serialisation throws or the payload is absent; all cut to 64 characters.
\<close>

definition spec_payload_prefix :: "'m env \<Rightarrow> json option \<Rightarrow> string" where
  "spec_payload_prefix e p =
     (case p of
        None \<Rightarrow> []
      | Some (JString s) \<Rightarrow> take 64 s
      | Some v \<Rightarrow> (case JSON_stringify e v of None \<Rightarrow> [] | Some s \<Rightarrow> take 64 s))"

text \<open>
  The invariant of the connection registry together with the transport: socket ids
  are unique among the live sockets, no user id maps to an empty set, the empty user
  id has no entry, a set holds a socket id once, and every registered socket id belongs
  to a live socket whose token payload names that user.
\<close>

definition registry_inv :: "state \<Rightarrow> bool" where
  "registry_inv st \<longleftrightarrow>
     distinct (map sid (sockets st)) \<and>
     (\<forall>u. userSockets st u \<noteq> Some []) \<and>
     userSockets st [] = None \<and>
     (\<forall>u. distinct (connectionsFor st u)) \<and>
     (\<forall>u. \<forall>i\<in>set (connectionsFor st u).
        \<exists>s\<in>set (sockets st). sid s = i \<and> (\<exists>p. user s = Some p \<and> userId_of p = Some u))"

section \<open>A concrete scenario\<close>

text \<open>
  Collaborators for the examples: the message service stores a chat body that has a
  content and rejects one that has none, a token verifies to a payload whose id is the
  token itself unless the token is \<open>bad\<close>, and the serialisation is given at the
  number 0 and at \<^verbatim>\<open>null\<close>, where it agrees with \<^verbatim>\<open>JSON.stringify\<close>.
\<close>

definition env0 :: "string env" where
  "env0 =
     \<lparr>messageService_sendText =
        (\<lambda>b u. case content b of None \<Rightarrow> Inl ''content is required'' | Some c \<Rightarrow> Inr c),
      messageService_sendSignal = (\<lambda>sb u. Inr ''signal stored''),
      jwtService_verify =
        (\<lambda>tok. if tok = ''bad'' then None
               else Some \<lparr>jwt_id = Some tok, sub = None, userId = None\<rparr>),
      JSON_stringify =
        (\<lambda>v. if v = JNum 0 then Some ''0'' else if v = JNull then Some ''null'' else None)\<rparr>"

definition user_of :: "string \<Rightarrow> jwt" where
  "user_of n = \<lparr>jwt_id = Some n, sub = None, userId = None\<rparr>"

text \<open>
  The sender \<open>S\<close> has the socket \<open>s1\<close>; the user \<open>U\<close> has the sockets \<open>c1\<close>
  (registered first) and \<open>c2\<close>; the user \<open>V\<close> has the socket \<open>v1\<close>, which is not in
  the room; \<open>x1\<close> is an anonymous socket in the room.
\<close>

definition sockS :: socket where
  "sockS = \<lparr>sid = ''s1'', user = Some (user_of ''S''), rooms = [''room:R'']\<rparr>"

definition sockX :: socket where
  "sockX = \<lparr>sid = ''x1'', user = None, rooms = [''room:R'']\<rparr>"

definition st0 :: state where
  "st0 =
     \<lparr>userSockets = [''S'' \<mapsto> [''s1''], ''U'' \<mapsto> [''c1'', ''c2''], ''V'' \<mapsto> [''v1'']],
      recentSignals = Map.empty,
      sockets =
        [sockS,
         \<lparr>sid = ''c1'', user = Some (user_of ''U''), rooms = [''room:R'']\<rparr>,
         \<lparr>sid = ''c2'', user = Some (user_of ''U''), rooms = [''room:R'']\<rparr>,
         \<lparr>sid = ''v1'', user = Some (user_of ''V''), rooms = []\<rparr>,
         sockX],
      service_calls = []\<rparr>"

definition signal0 :: "string \<Rightarrow> string \<Rightarrow> json option \<Rightarrow> body" where
  "signal0 t target p =
     \<lparr>messageType = Some ''webrtc_signal'', signalType = Some t, senderId = Some ''S'',
      targetId = Some target, roomId = Some ''R'', data = p, content = None\<rparr>"

definition chat0 :: "string option \<Rightarrow> body" where
  "chat0 c =
     \<lparr>messageType = Some ''text'', signalType = None, senderId = Some ''S'',
      targetId = None, roomId = Some ''R'', data = None, content = c\<rparr>"

definition hs0 :: "string \<Rightarrow> handshake" where
  "hs0 tok = \<lparr>auth_token = Some tok, query_token = None\<rparr>"

text \<open>
  The same state after \<open>c2\<close> has left the room, and a state whose registry still holds
  the socket \<open>z1\<close> of the user \<open>Z\<close>, which is no longer live.
\<close>

definition st_away :: state where
  "st_away =
     st0\<lparr>sockets :=
           [sockS,
            \<lparr>sid = ''c1'', user = Some (user_of ''U''), rooms = [''room:R'']\<rparr>,
            \<lparr>sid = ''c2'', user = Some (user_of ''U''), rooms = []\<rparr>,
            \<lparr>sid = ''v1'', user = Some (user_of ''V''), rooms = []\<rparr>,
            sockX]\<rparr>"

definition st_stale :: state where
  "st_stale = st0\<lparr>userSockets := (userSockets st0)(''Z'' \<mapsto> [''z1''])\<rparr>"

text \<open>Two different strings with the same first 64 characters.\<close>

definition long_a :: string where
  "long_a = replicate 64 (CHR ''a'') @ ''-first''"

definition long_b :: string where
  "long_b = replicate 64 (CHR ''a'') @ ''-second''"

section \<open>Facts about targeted delivery\<close>

lemma sendToUser_loop_result:
  "sendToUser_loop socks rn multi cs (ids, out, d) = (ids', out', d') \<Longrightarrow>
     out' = out @ (if multi then filter (eligible socks rn) cs
                   else take 1 (filter (eligible socks rn) cs)) \<and>
     d' = (d \<or> filter (eligible socks rn) cs \<noteq> []) \<and>
     (\<exists>R. (\<forall>i\<in>R. find_socket socks i = None) \<and> ids' = filter (\<lambda>i. i \<notin> R) ids)"
proof (induction cs arbitrary: ids out d)
  case Nil
  then have "ids' = filter (\<lambda>i. i \<notin> {}) ids" by simp
  with Nil show ?case by auto
next
  case (Cons c cs)
  show ?case
  proof (cases "find_socket socks c")
    case None
    with Cons.prems have
      "sendToUser_loop socks rn multi cs (set_delete c ids, out, d) = (ids', out', d')"
      by simp
    from Cons.IH [OF this] obtain R where
      o: "out' = out @ (if multi then filter (eligible socks rn) cs
                   else take 1 (filter (eligible socks rn) cs))"
      and d: "d' = (d \<or> filter (eligible socks rn) cs \<noteq> [])"
      and R: "\<forall>i\<in>R. find_socket socks i = None"
      and i: "ids' = filter (\<lambda>i. i \<notin> R) (set_delete c ids)"
      by blast
    have ne: "\<not> eligible socks rn c" using None by (simp add: eligible_def)
    have "ids' = filter (\<lambda>i. i \<notin> insert c R) ids"
      using i by (auto simp: set_delete_def removeAll_filter_not_eq intro: filter_cong)
    moreover have "\<forall>i\<in>insert c R. find_socket socks i = None" using R None by simp
    ultimately show ?thesis using o d ne by (intro conjI exI [of _ "insert c R"]) auto
  next
    case (Some s)
    show ?thesis
    proof (cases "eligible socks rn c")
      case False
      with Some have skip: "(case rn of None \<Rightarrow> False | Some r \<Rightarrow> r \<notin> set (rooms s))"
        by (auto simp: eligible_def split: option.splits)
      with Cons.prems Some have
        "sendToUser_loop socks rn multi cs (ids, out, d) = (ids', out', d')"
        by simp
      from Cons.IH [OF this] False show ?thesis by simp
    next
      case True
      with Some have noskip: "\<not> (case rn of None \<Rightarrow> False | Some r \<Rightarrow> r \<notin> set (rooms s))"
        by (auto simp: eligible_def split: option.splits)
      show ?thesis
      proof (cases multi)
        case False
        with Cons.prems Some noskip have "ids' = ids" "out' = out @ [c]" "d'"
          by simp_all
        moreover have "ids = filter (\<lambda>i. i \<notin> {}) ids" by simp
        ultimately show ?thesis using True False
          by (intro conjI exI [of _ "{}"]) simp_all
      next
        case m: True
        with Cons.prems Some noskip have
          "sendToUser_loop socks rn multi cs (ids, out @ [c], True) = (ids', out', d')"
          by simp
        from Cons.IH [OF this] True m show ?thesis by simp
      qed
    qed
  qed
qed

lemma sendToUser_offline:
  "connectionsFor st uid = [] \<Longrightarrow> sendToUser st uid ev d opts = (False, [], st)"
  by (auto simp: sendToUser_def connectionsFor_def split: option.splits)

lemma sendToUser_result:
  assumes "sendToUser st uid ev d opts = (sent, out, st')"
  shows "out = map (\<lambda>i. (i, ev, d))
                 (if multi_option opts then candidates_of st uid (roomName_option opts)
                  else take 1 (candidates_of st uid (roomName_option opts))) \<and>
         sent = (candidates_of st uid (roomName_option opts) \<noteq> []) \<and>
         sockets st' = sockets st \<and>
         recentSignals st' = recentSignals st \<and>
         service_calls st' = service_calls st \<and>
         (\<exists>R. (\<forall>i\<in>R. find_socket (sockets st) i = None) \<and>
           (\<forall>u. connectionsFor st' u =
                (if u = uid then filter (\<lambda>i. i \<notin> R) (connectionsFor st u)
                 else connectionsFor st u))) \<and>
         (\<forall>u. userSockets st' u = Some [] \<longrightarrow> userSockets st u = Some [])"
proof (cases "connectionsFor st uid = []")
  case True
  with assms have eq: "sent = False" "out = []" "st' = st"
    by (simp_all add: sendToUser_offline)
  have c: "candidates_of st uid (roomName_option opts) = []"
    using True by (simp add: candidates_of_def)
  have "\<forall>i\<in>{}. find_socket (sockets st) i = None" by simp
  moreover have "\<forall>u. connectionsFor st u =
            (if u = uid then filter (\<lambda>i. i \<notin> {}) (connectionsFor st u)
             else connectionsFor st u)" by simp
  ultimately have "\<exists>R. (\<forall>i\<in>R. find_socket (sockets st) i = None) \<and>
           (\<forall>u. connectionsFor st u =
                (if u = uid then filter (\<lambda>i. i \<notin> R) (connectionsFor st u)
                 else connectionsFor st u))" by blast
  with eq c show ?thesis by simp
next
  case False
  then obtain ids where Some: "userSockets st uid = Some ids" and ne: "ids \<noteq> []"
    by (auto simp: connectionsFor_def split: option.splits)
  obtain ids' o' d' where loop:
    "sendToUser_loop (sockets st) (roomName_option opts) (multi_option opts) (rev ids)
       (ids, [], False) = (ids', o', d')"
    by (cases "sendToUser_loop (sockets st) (roomName_option opts) (multi_option opts)
                 (rev ids) (ids, [], False)") auto
  from sendToUser_loop_result [OF loop] obtain R where
    o: "o' = (if multi_option opts
              then filter (eligible (sockets st) (roomName_option opts)) (rev ids)
              else take 1 (filter (eligible (sockets st) (roomName_option opts)) (rev ids)))"
    and d: "d' = (filter (eligible (sockets st) (roomName_option opts)) (rev ids) \<noteq> [])"
    and R: "\<forall>i\<in>R. find_socket (sockets st) i = None"
    and i: "ids' = filter (\<lambda>i. i \<notin> R) ids"
    by auto
  have c: "candidates_of st uid (roomName_option opts) =
           filter (eligible (sockets st) (roomName_option opts)) (rev ids)"
    using Some by (simp add: candidates_of_def connectionsFor_def)
  from assms Some ne loop have
    s: "sent = d'" and out: "out = map (\<lambda>i. (i, ev, d)) o'"
    and st': "st' = (if length ids' = 0
             then st\<lparr>userSockets := (userSockets st)(uid := None)\<rparr>
             else st\<lparr>userSockets := (userSockets st)(uid \<mapsto> ids')\<rparr>)"
    by (simp_all add: sendToUser_def Let_def)
  have 1: "out = map (\<lambda>i. (i, ev, d))
                 (if multi_option opts then candidates_of st uid (roomName_option opts)
                  else take 1 (candidates_of st uid (roomName_option opts)))"
    using out o c by simp
  have 2: "sent = (candidates_of st uid (roomName_option opts) \<noteq> [])" using s d c by simp
  have 3: "sockets st' = sockets st" "recentSignals st' = recentSignals st"
    "service_calls st' = service_calls st" using st' by simp_all
  have "\<forall>u. connectionsFor st' u =
            (if u = uid then filter (\<lambda>i. i \<notin> R) (connectionsFor st u)
             else connectionsFor st u)"
    using st' i Some by (auto simp: connectionsFor_def)
  with R have 4: "\<exists>R. (\<forall>i\<in>R. find_socket (sockets st) i = None) \<and>
       (\<forall>u. connectionsFor st' u =
            (if u = uid then filter (\<lambda>i. i \<notin> R) (connectionsFor st u)
             else connectionsFor st u))" by blast
  have 5: "\<forall>u. userSockets st' u = Some [] \<longrightarrow> userSockets st u = Some []"
    using st' by auto
  from 1 2 3 4 5 show ?thesis by blast
qed

section \<open>Facts about deduplication and routing\<close>

lemma isDuplicateSignal_fields:
  "sockets (snd (isDuplicateSignal e now st t b)) = sockets st"
  "userSockets (snd (isDuplicateSignal e now st t b)) = userSockets st"
  "service_calls (snd (isDuplicateSignal e now st t b)) = service_calls st"
  by (simp_all add: isDuplicateSignal_def Let_def split: option.splits)

lemma isDuplicateSignal_bypass:
  "t \<notin> set dedupSignals \<Longrightarrow> isDuplicateSignal e now st t b = (False, st)"
  by (simp add: isDuplicateSignal_def)

lemma isDuplicateSignal_iff:
  "fst (isDuplicateSignal e now st t b) \<longleftrightarrow>
     t \<in> set dedupSignals \<and>
     (\<exists>lastSeen. recentSignals st (dedupKey e t b) = Some lastSeen \<and> lastSeen \<noteq> 0 \<and>
        now - lastSeen < dedupWindowMs)"
  by (simp add: isDuplicateSignal_def Let_def split: option.splits)

lemma isDuplicateSignal_dup_state:
  "fst (isDuplicateSignal e now st t b) \<Longrightarrow> snd (isDuplicateSignal e now st t b) = st"
  by (auto simp: isDuplicateSignal_def Let_def split: option.splits if_splits)

lemma isDuplicateSignal_records:
  "t \<in> set dedupSignals \<Longrightarrow> \<not> fst (isDuplicateSignal e now st t b) \<Longrightarrow>
     recentSignals (snd (isDuplicateSignal e now st t b)) =
       cleanupRecentSignals now ((recentSignals st)(dedupKey e t b \<mapsto> now))"
  by (auto simp: isDuplicateSignal_def Let_def split: option.splits if_splits)

lemma cleanupRecentSignals_recorded:
  "cleanupRecentSignals now (m(k \<mapsto> now)) k = Some now"
  by (simp add: cleanupRecentSignals_def dedupWindowMs_def)

lemma cleanupRecentSignals_Some:
  "cleanupRecentSignals now m k = Some t \<longleftrightarrow> m k = Some t \<and> now - t \<le> dedupWindowMs * 2"
  by (auto simp: cleanupRecentSignals_def split: option.splits)

lemma candidates_of_cong:
  "sockets st' = sockets st \<Longrightarrow> userSockets st' = userSockets st \<Longrightarrow>
     candidates_of st' uid rn = candidates_of st uid rn"
  by (simp add: candidates_of_def connectionsFor_def)

lemma client_to_cong:
  "sockets st' = sockets st \<Longrightarrow> client_to st' c r ev d = client_to st c r ev d"
  by (simp add: client_to_def)

lemma roomName_option_signal:
  "roomName_option
     (Some \<lparr>opt_roomId = (if normalized b \<in> set roomScopedSignals then roomId b else None),
            opt_multi = Some m\<rparr>) = scope_of b"
  by (simp add: roomName_option_def scope_of_def truthy_str_def)

lemma multi_option_signal:
  "multi_option (Some \<lparr>opt_roomId = r, opt_multi = Some m\<rparr>) = m"
  by (simp add: multi_option_def)

text \<open>The three components of the result of routing a signal.\<close>

lemma onSendText_signal_reply:
  assumes "user client = Some u" "messageType b = Some ''webrtc_signal''"
  shows "fst (onSendText e now st client b) =
           OkType ''webrtc_signal'' (fst (isDuplicateSignal e now st (normalized b) b))"
  using assms
  by (simp add: onSendText_def normalized_def Let_def split: prod.splits)

lemma onSendText_signal_emissions:
  fixes e :: "'a env"
  assumes "user client = Some u" "messageType b = Some ''webrtc_signal''"
  shows "fst (snd (onSendText e now st client b)) =
           (if fst (isDuplicateSignal e now st (normalized b) b) then []
            else if truthy_str (targetId b) \<and>
                    candidates_of st (tmpl (targetId b)) (scope_of b) \<noteq> []
            then map (\<lambda>i. (i, ''newMessage'', Body b))
                   (if normalized b \<in> set multiTargetSignals
                    then candidates_of st (tmpl (targetId b)) (scope_of b)
                    else take 1 (candidates_of st (tmpl (targetId b)) (scope_of b)))
            else client_to st client (roomName_of (roomId b)) ''newMessage'' (Body b))"
proof -
  obtain dup st1 where d: "isDuplicateSignal e now st (normalized b) b = (dup, st1)"
    by (cases "isDuplicateSignal e now st (normalized b) b") auto
  have f: "sockets st1 = sockets st" "userSockets st1 = userSockets st"
    using isDuplicateSignal_fields [of e now st "normalized b" b] d by simp_all
  let ?opts = "Some \<lparr>opt_roomId = (if normalized b \<in> set roomScopedSignals
                                    then roomId b else None),
                     opt_multi = Some (normalized b \<in> set multiTargetSignals)\<rparr>"
  obtain sent out and st2 :: state where
    s: "sendToUser st1 (tmpl (targetId b)) ''newMessage'' (Body b :: 'a emitted) ?opts
          = (sent, out, st2)"
    by (cases "sendToUser st1 (tmpl (targetId b)) ''newMessage'' (Body b :: 'a emitted) ?opts")
       auto
  note r = sendToUser_result [OF s, unfolded roomName_option_signal multi_option_signal
             candidates_of_cong [OF f]]
  have c2: "client_to st2 client (roomName_of (roomId b)) ''newMessage'' (Body b :: 'a emitted)
              = client_to st client (roomName_of (roomId b)) ''newMessage'' (Body b)"
    using r f by (simp add: client_to_def)
  have c1: "client_to st1 client (roomName_of (roomId b)) ''newMessage'' (Body b :: 'a emitted)
              = client_to st client (roomName_of (roomId b)) ''newMessage'' (Body b)"
    using f by (simp add: client_to_def)
  show ?thesis
    using assms d s r c1 c2
    by (auto simp: onSendText_def normalized_def [symmetric] Let_def)
qed

lemma onSendText_signal_state:
  fixes e :: "'a env"
  assumes "user client = Some u" "messageType b = Some ''webrtc_signal''"
  shows "sockets (snd (snd (onSendText e now st client b))) = sockets st"
    and "service_calls (snd (snd (onSendText e now st client b))) = service_calls st"
    and "recentSignals (snd (snd (onSendText e now st client b))) =
           recentSignals (snd (isDuplicateSignal e now st (normalized b) b))"
    and "fst (isDuplicateSignal e now st (normalized b) b) \<Longrightarrow>
           snd (snd (onSendText e now st client b)) = st"
proof -
  obtain dup st1 where d: "isDuplicateSignal e now st (normalized b) b = (dup, st1)"
    by (cases "isDuplicateSignal e now st (normalized b) b") auto
  have f: "sockets st1 = sockets st" "userSockets st1 = userSockets st"
    "service_calls st1 = service_calls st"
    using isDuplicateSignal_fields [of e now st "normalized b" b] d by simp_all
  let ?opts = "Some \<lparr>opt_roomId = (if normalized b \<in> set roomScopedSignals
                                    then roomId b else None),
                     opt_multi = Some (normalized b \<in> set multiTargetSignals)\<rparr>"
  obtain sent out and st2 :: state where
    s: "sendToUser st1 (tmpl (targetId b)) ''newMessage'' (Body b :: 'a emitted) ?opts
          = (sent, out, st2)"
    by (cases "sendToUser st1 (tmpl (targetId b)) ''newMessage'' (Body b :: 'a emitted) ?opts")
       auto
  note r = sendToUser_result [OF s]
  have st: "snd (snd (onSendText e now st client b)) =
              (if dup then st1 else if truthy_str (targetId b) then st2 else st1)"
    using assms d s by (auto simp: onSendText_def normalized_def [symmetric] Let_def)
  show "sockets (snd (snd (onSendText e now st client b))) = sockets st"
    using st r f by simp
  show "service_calls (snd (snd (onSendText e now st client b))) = service_calls st"
    using st r f by simp
  show "recentSignals (snd (snd (onSendText e now st client b))) =
           recentSignals (snd (isDuplicateSignal e now st (normalized b) b))"
    using st r d by simp
  show "fst (isDuplicateSignal e now st (normalized b) b) \<Longrightarrow>
           snd (snd (onSendText e now st client b)) = st"
    using st d isDuplicateSignal_dup_state [of e now st "normalized b" b] by simp
qed

section \<open>Deduplication of retried signals\<close>

lemmas scenario_defs =
  onSendText_def isDuplicateSignal_def dedupKey_def payloadHash_def hashPayload_def
  cleanupRecentSignals_def dedupWindowMs_def dedupSignals_def roomScopedSignals_def
  multiTargetSignals_def toLowerCase_def lower_char_def tmpl_def truthy_str_def
  roomName_of_def sendToUser_def roomName_option_def multi_option_def find_socket_def
  client_to_def server_to_def set_delete_def set_add_def normalized_def env0_def st0_def
  sockS_def sockX_def signal0_def user_of_def Let_def

lemma dedupKey_cong:
  "senderId b' = senderId b \<Longrightarrow> targetId b' = targetId b \<Longrightarrow> roomId b' = roomId b \<Longrightarrow>
   payloadHash e b' = payloadHash e b \<Longrightarrow> dedupKey e t b' = dedupKey e t b"
  by (simp add: dedupKey_def)

lemma triple_eqI: "fst p = a \<Longrightarrow> fst (snd p) = b \<Longrightarrow> snd (snd p) = c \<Longrightarrow> p = (a, b, c)"
  by (cases p) auto

text \<open>The state left by a signal that was routed holds its key with the time of the call.\<close>

lemma onSendText_records:
  fixes e :: "'a env"
  assumes "user client = Some u" "messageType b = Some ''webrtc_signal''"
    and "normalized b \<in> set dedupSignals"
    and "fst (onSendText e now st client b) = OkType ''webrtc_signal'' False"
  shows "recentSignals (snd (snd (onSendText e now st client b)))
           (dedupKey e (normalized b) b) = Some now"
proof -
  have nd: "\<not> fst (isDuplicateSignal e now st (normalized b) b)"
    using assms(4) onSendText_signal_reply [OF assms(1,2), of e now st] by simp
  show ?thesis
    using onSendText_signal_state(3) [OF assms(1,2), of e now st]
      isDuplicateSignal_records [OF assms(3) nd]
    by (simp add: cleanupRecentSignals_recorded)
qed

text \<open>A signal whose key is stored with a time inside the window is absorbed.\<close>

lemma onSendText_absorbed:
  fixes e :: "'a env"
  assumes "user client = Some u" "messageType b = Some ''webrtc_signal''"
    and "normalized b \<in> set dedupSignals"
    and "recentSignals st (dedupKey e (normalized b) b) = Some lastSeen"
    and "lastSeen \<noteq> 0" "now - lastSeen < dedupWindowMs"
  shows "onSendText e now st client b = (OkType ''webrtc_signal'' True, [], st)"
proof -
  have d: "fst (isDuplicateSignal e now st (normalized b) b)"
    using assms(3-6) by (simp add: isDuplicateSignal_iff)
  show ?thesis
  proof (rule triple_eqI)
    show "fst (onSendText e now st client b) = OkType ''webrtc_signal'' True"
      using onSendText_signal_reply [OF assms(1,2), of e now st] d by simp
    show "fst (snd (onSendText e now st client b)) = []"
      using onSendText_signal_emissions [OF assms(1,2), of e now st] d by simp
    show "snd (snd (onSendText e now st client b)) = st"
      using onSendText_signal_state(4) [OF assms(1,2) d] .
  qed
qed

text \<open>The emissions of a signal that is not absorbed do not depend on the cache.\<close>

lemma onSendText_routed_emissions:
  fixes e :: "'a env"
  assumes "user client = Some u" "messageType b = Some ''webrtc_signal''"
    and "\<not> fst (isDuplicateSignal e now st (normalized b) b)"
  shows "fst (snd (onSendText e now st client b)) =
           fst (snd (onSendText e now (st\<lparr>recentSignals := Map.empty\<rparr>) client b))"
proof -
  have n: "\<not> fst (isDuplicateSignal e now (st\<lparr>recentSignals := Map.empty\<rparr>) (normalized b) b)"
    by (simp add: isDuplicateSignal_iff)
  have c: "candidates_of (st\<lparr>recentSignals := Map.empty\<rparr>) uid rn = candidates_of st uid rn"
    for uid rn by (simp add: candidates_of_def connectionsFor_def)
  have t: "client_to (st\<lparr>recentSignals := Map.empty\<rparr>) client r ev (d :: 'a emitted) =
           client_to st client r ev d" for r ev d
    by (simp add: client_to_def)
  show ?thesis
    using assms(3) n
    by (simp add: onSendText_signal_emissions [OF assms(1,2)] c t)
qed

text \<open>
  C2. Two signals of a dedup-eligible type with the same normalised type, sender,
  target, room and payload: when the first was routed at a time \<open>now1\<close> (a clock value
  other than 0) and the second arrives less than the window later, the second emits
  nothing, reports \<open>deduped\<close> and leaves the state, hence the stored time \<open>now1\<close>, as it
  was; when the second arrives a window or more later, it is not reported as a
  duplicate and emits what it would emit with an empty cache.
\<close>

theorem dedup_within_window:
  fixes e :: "'a env"
  assumes "user client = Some u" and "user client' = Some u'"
    and "messageType b = Some ''webrtc_signal''" and "messageType b' = Some ''webrtc_signal''"
    and "normalized b \<in> set dedupSignals" and "normalized b' = normalized b"
    and "senderId b' = senderId b" and "targetId b' = targetId b"
    and "roomId b' = roomId b" and "data b' = data b"
    and "now1 \<noteq> 0"
    and "fst (onSendText e now1 st client b) = OkType ''webrtc_signal'' False"
    and "st1 = snd (snd (onSendText e now1 st client b))"
  shows "(now2 - now1 < dedupWindowMs \<longrightarrow>
            onSendText e now2 st1 client' b' = (OkType ''webrtc_signal'' True, [], st1) \<and>
            recentSignals st1 (dedupKey e (normalized b) b) = Some now1) \<and>
         (now2 - now1 \<ge> dedupWindowMs \<longrightarrow>
            fst (onSendText e now2 st1 client' b') = OkType ''webrtc_signal'' False \<and>
            fst (snd (onSendText e now2 st1 client' b')) =
              fst (snd (onSendText e now2 (st1\<lparr>recentSignals := Map.empty\<rparr>) client' b')))"
proof -
  have k: "dedupKey e (normalized b') b' = dedupKey e (normalized b) b"
    using assms(6-10) by (simp add: dedupKey_def payloadHash_def)
  have r: "recentSignals st1 (dedupKey e (normalized b) b) = Some now1"
    unfolding assms(13) by (rule onSendText_records [OF assms(1,3,5,12)])
  have el: "normalized b' \<in> set dedupSignals" using assms(5,6) by simp
  have r': "recentSignals st1 (dedupKey e (normalized b') b') = Some now1"
    using r k by simp
  have within: "onSendText e now2 st1 client' b' = (OkType ''webrtc_signal'' True, [], st1)"
    if "now2 - now1 < dedupWindowMs"
    by (rule onSendText_absorbed [OF assms(2,4) el r' assms(11) that])
  have apart: "\<not> fst (isDuplicateSignal e now2 st1 (normalized b') b')"
    if "now2 - now1 \<ge> dedupWindowMs"
    using that r' by (simp add: isDuplicateSignal_iff)
  have "fst (onSendText e now2 st1 client' b') = OkType ''webrtc_signal'' False"
    if "now2 - now1 \<ge> dedupWindowMs"
    using onSendText_signal_reply [OF assms(2,4), of e now2 st1] apart [OF that] by simp
  moreover have "fst (snd (onSendText e now2 st1 client' b')) =
              fst (snd (onSendText e now2 (st1\<lparr>recentSignals := Map.empty\<rparr>) client' b'))"
    if "now2 - now1 \<ge> dedupWindowMs"
    by (rule onSendText_routed_emissions [OF assms(2,4) apart [OF that]])
  ultimately show ?thesis using within r by blast
qed

theorem dedup_within_window_witness:
  "fst (snd (onSendText env0 5000 st0 sockS (signal0 ''offer'' ''U'' (Some (JString ''sdp'')))))
     = [(''c2'', ''newMessage'', Body (signal0 ''offer'' ''U'' (Some (JString ''sdp''))))] \<and>
   fst (onSendText env0 5200
          (snd (snd (onSendText env0 5000 st0 sockS
                       (signal0 ''offer'' ''U'' (Some (JString ''sdp''))))))
          sockS (signal0 ''OFFER'' ''U'' (Some (JString ''sdp''))))
     = OkType ''webrtc_signal'' True \<and>
   fst (snd (onSendText env0 5200
          (snd (snd (onSendText env0 5000 st0 sockS
                       (signal0 ''offer'' ''U'' (Some (JString ''sdp''))))))
          sockS (signal0 ''OFFER'' ''U'' (Some (JString ''sdp'')))))
     = [] \<and>
   fst (onSendText env0 6100
          (snd (snd (onSendText env0 5000 st0 sockS
                       (signal0 ''offer'' ''U'' (Some (JString ''sdp''))))))
          sockS (signal0 ''OFFER'' ''U'' (Some (JString ''sdp''))))
     = OkType ''webrtc_signal'' False \<and>
   fst (snd (onSendText env0 6100
          (snd (snd (onSendText env0 5000 st0 sockS
                       (signal0 ''offer'' ''U'' (Some (JString ''sdp''))))))
          sockS (signal0 ''OFFER'' ''U'' (Some (JString ''sdp'')))))
     = [(''c2'', ''newMessage'', Body (signal0 ''OFFER'' ''U'' (Some (JString ''sdp''))))]"
proof -
  let ?b = "signal0 ''offer'' ''U'' (Some (JString ''sdp''))"
  let ?b' = "signal0 ''OFFER'' ''U'' (Some (JString ''sdp''))"
  let ?st1 = "snd (snd (onSendText env0 5000 st0 sockS ?b))"
  have h: "user sockS = Some (user_of ''S'')" "messageType ?b = Some ''webrtc_signal''"
    "messageType ?b' = Some ''webrtc_signal''" "normalized ?b \<in> set dedupSignals"
    "normalized ?b' = normalized ?b" "senderId ?b' = senderId ?b" "targetId ?b' = targetId ?b"
    "roomId ?b' = roomId ?b" "data ?b' = data ?b" "(5000::int) \<noteq> 0"
    by (simp_all add: sockS_def signal0_def normalized_def toLowerCase_def lower_char_def
          dedupSignals_def)
  have f: "fst (onSendText env0 5000 st0 sockS ?b) = OkType ''webrtc_signal'' False"
    by (simp add: scenario_defs split: prod.splits)
  have o: "fst (snd (onSendText env0 5000 st0 sockS ?b)) = [(''c2'', ''newMessage'', Body ?b)]"
    by (simp add: scenario_defs split: prod.splits)
  have o': "fst (snd (onSendText env0 6100 (?st1\<lparr>recentSignals := Map.empty\<rparr>) sockS ?b'))
     = [(''c2'', ''newMessage'', Body ?b')]"
    by (simp add: scenario_defs split: prod.splits)
  note t = dedup_within_window [OF h(1) h(1) h(2) h(3) h(4) h(5) h(6) h(7) h(8) h(9) h(10) f refl]
  from t [of 5200] t [of 6100] o o' show ?thesis
    by (simp add: dedupWindowMs_def)
qed

section \<open>The result of routing and the sweep of the cache\<close>

text \<open>
  C7 as amended. Routing a \<^verbatim>\<open>webrtc_signal\<close> body for an authenticated socket returns
  \<^verbatim>\<open>{ ok: true, type: 'webrtc_signal' }\<close>: the type field is the message type, whatever
  the signal type of the body is. The result carries \<open>deduped\<close> exactly when the type is
  dedup-eligible and the cache holds the key of the body with a time other than 0 that
  is less than the window before \<open>now\<close>.
\<close>

theorem signal_reply:
  fixes e :: "'a env"
  assumes "user client = Some u" and "messageType b = Some ''webrtc_signal''"
  shows "\<exists>deduped.
           fst (onSendText e now st client b) = OkType ''webrtc_signal'' deduped \<and>
           deduped = fst (isDuplicateSignal e now st (normalized b) b) \<and>
           (deduped \<longleftrightarrow>
              normalized b \<in> set dedupSignals \<and>
              (\<exists>lastSeen. recentSignals st (dedupKey e (normalized b) b) = Some lastSeen \<and>
                 lastSeen \<noteq> 0 \<and> now - lastSeen < dedupWindowMs))"
  using onSendText_signal_reply [OF assms, of e now st]
    isDuplicateSignal_iff [of e now st "normalized b" b]
  by simp

theorem signal_reply_witness:
  "user sockS = Some (user_of ''S'') \<and>
   messageType (signal0 ''answer'' ''U'' None) = Some ''webrtc_signal'' \<and>
   fst (onSendText env0 5000 st0 sockS (signal0 ''answer'' ''U'' None))
     = OkType ''webrtc_signal'' False \<and>
   fst (onSendText env0 5300 (st0\<lparr>recentSignals := [''answer|S|U|R|'' \<mapsto> 5000]\<rparr>) sockS
          (signal0 ''answer'' ''U'' None))
     = OkType ''webrtc_signal'' True"
proof -
  have h: "user sockS = Some (user_of ''S'')"
    "messageType (signal0 ''answer'' ''U'' None) = Some ''webrtc_signal''"
    by (simp_all add: sockS_def signal0_def)
  have k: "dedupKey env0 (normalized (signal0 ''answer'' ''U'' None))
             (signal0 ''answer'' ''U'' None) = ''answer|S|U|R|''"
    "normalized (signal0 ''answer'' ''U'' None) \<in> set dedupSignals"
    by (simp_all add: scenario_defs)
  from signal_reply [OF h, of env0 5000 st0]
    signal_reply [OF h, of env0 5300 "st0\<lparr>recentSignals := [''answer|S|U|R|'' \<mapsto> 5000]\<rparr>"]
  show ?thesis using h k by (auto simp: st0_def dedupWindowMs_def)
qed

text \<open>
  C7 as the specification states it fails: for an \<open>offer\<close> the type field of the result
  is \<open>webrtc_signal\<close>, not the signal type \<open>offer\<close>.
\<close>

theorem signal_reply_type_counterexample:
  "signalType (signal0 ''offer'' ''U'' None) = Some ''offer'' \<and>
   fst (onSendText env0 5000 st0 sockS (signal0 ''offer'' ''U'' None))
     = OkType ''webrtc_signal'' False \<and>
   fst (onSendText env0 5000 st0 sockS (signal0 ''offer'' ''U'' None))
     \<noteq> OkType ''offer'' False"
  by (simp add: scenario_defs split: prod.splits)

text \<open>
  C8 as amended. A call of \<^verbatim>\<open>isDuplicateSignal\<close> that records a key (the type is
  dedup-eligible and the signal is not reported as a duplicate) leaves no entry that is
  more than twice the window older than \<open>now\<close>, keeps every other entry, and stores
  \<open>now\<close> for the key; a call that returns early (a type that is not dedup-eligible, or a
  duplicate) leaves the cache as it was.
\<close>

theorem sweep_on_record:
  "(if t \<in> set dedupSignals \<and> \<not> fst (isDuplicateSignal e now st t b)
    then (\<forall>k ts. recentSignals (snd (isDuplicateSignal e now st t b)) k = Some ts \<longrightarrow>
                  now - ts \<le> dedupWindowMs * 2) \<and>
         (\<forall>k ts. k \<noteq> dedupKey e t b \<and> recentSignals st k = Some ts \<and>
                  now - ts \<le> dedupWindowMs * 2 \<longrightarrow>
                  recentSignals (snd (isDuplicateSignal e now st t b)) k = Some ts) \<and>
         recentSignals (snd (isDuplicateSignal e now st t b)) (dedupKey e t b) = Some now
    else snd (isDuplicateSignal e now st t b) = st)"
proof (cases "t \<in> set dedupSignals \<and> \<not> fst (isDuplicateSignal e now st t b)")
  case True
  then have r: "recentSignals (snd (isDuplicateSignal e now st t b)) =
       cleanupRecentSignals now ((recentSignals st)(dedupKey e t b \<mapsto> now))"
    by (simp add: isDuplicateSignal_records)
  show ?thesis using True
    by (simp add: r cleanupRecentSignals_Some dedupWindowMs_def)
next
  case False
  then have "snd (isDuplicateSignal e now st t b) = st"
    by (auto simp: isDuplicateSignal_bypass isDuplicateSignal_dup_state)
  with False show ?thesis by auto
qed

theorem sweep_on_record_witness:
  "recentSignals
     (snd (isDuplicateSignal env0 10000
             (st0\<lparr>recentSignals := [''stale'' \<mapsto> 1, ''fresh'' \<mapsto> 9000]\<rparr>) ''offer''
             (signal0 ''offer'' ''U'' None))) ''stale'' = None \<and>
   recentSignals
     (snd (isDuplicateSignal env0 10000
             (st0\<lparr>recentSignals := [''stale'' \<mapsto> 1, ''fresh'' \<mapsto> 9000]\<rparr>) ''offer''
             (signal0 ''offer'' ''U'' None))) ''fresh'' = Some 9000 \<and>
   recentSignals
     (snd (isDuplicateSignal env0 10000
             (st0\<lparr>recentSignals := [''stale'' \<mapsto> 1, ''fresh'' \<mapsto> 9000]\<rparr>) ''offer''
             (signal0 ''offer'' ''U'' None))) ''offer|S|U|R|'' = Some 10000 \<and>
   snd (isDuplicateSignal env0 10000
          (st0\<lparr>recentSignals := [''stale'' \<mapsto> 1, ''fresh'' \<mapsto> 9000]\<rparr>) ''ice-candidate''
          (signal0 ''ice-candidate'' ''U'' None))
     = st0\<lparr>recentSignals := [''stale'' \<mapsto> 1, ''fresh'' \<mapsto> 9000]\<rparr>"
  using sweep_on_record [of "''offer''" env0 10000
          "st0\<lparr>recentSignals := [''stale'' \<mapsto> 1, ''fresh'' \<mapsto> 9000]\<rparr>"
          "signal0 ''offer'' ''U'' None"]
    sweep_on_record [of "''ice-candidate''" env0 10000
          "st0\<lparr>recentSignals := [''stale'' \<mapsto> 1, ''fresh'' \<mapsto> 9000]\<rparr>"
          "signal0 ''ice-candidate'' ''U'' None"]
  by (simp add: scenario_defs)

text \<open>
  C8 as the specification states it fails: a call for a type that is not
  dedup-eligible, and a call that reports a duplicate, both leave in the cache an entry
  that is more than twice the window old.
\<close>

theorem sweep_every_call_counterexample:
  "10000 - 1 > dedupWindowMs * 2 \<and>
   recentSignals
     (snd (isDuplicateSignal env0 10000
             (st0\<lparr>recentSignals := [''stale'' \<mapsto> 1]\<rparr>) ''ice-candidate''
             (signal0 ''ice-candidate'' ''U'' None))) ''stale'' = Some 1 \<and>
   fst (isDuplicateSignal env0 10000
          (st0\<lparr>recentSignals := [''stale'' \<mapsto> 1, ''offer|S|U|R|'' \<mapsto> 9500]\<rparr>) ''offer''
          (signal0 ''offer'' ''U'' None)) \<and>
   recentSignals
     (snd (isDuplicateSignal env0 10000
             (st0\<lparr>recentSignals := [''stale'' \<mapsto> 1, ''offer|S|U|R|'' \<mapsto> 9500]\<rparr>) ''offer''
             (signal0 ''offer'' ''U'' None))) ''stale'' = Some 1"
  by (simp add: scenario_defs)

section \<open>The payload part of the key\<close>

lemma payloadHash_truthy:
  "data b = Some p \<Longrightarrow> truthy p \<Longrightarrow> payloadHash e b = spec_payload_prefix e (data b)"
  by (cases p) (simp_all add: payloadHash_def hashPayload_def spec_payload_prefix_def)

lemma payloadHash_falsy:
  "data b = None \<or> (\<exists>p. data b = Some p \<and> \<not> truthy p) \<Longrightarrow> payloadHash e b = []"
  by (auto simp: payloadHash_def)

lemma payloadHash_string:
  "data b = Some (JString s) \<Longrightarrow> payloadHash e b = take 64 s"
  by (simp add: payloadHash_def hashPayload_def)

text \<open>
  C9 as amended. The key of a signal is its normalised type, sender, target and room
  followed by the payload part, which is the first 64 characters of the payload (the
  payload itself when it is a string, otherwise its JSON serialisation, empty when the
  serialisation throws) and is empty when the payload is absent or falsy
  (\<^verbatim>\<open>null\<close>, \<^verbatim>\<open>false\<close>, 0 or the empty string). Two signals of a dedup-eligible type
  with the same normalised type, sender, target and room whose payload parts are equal
  are duplicates of one another within the window; in particular two string payloads
  that agree on their first 64 characters, whatever follows.
\<close>

theorem payload_prefix_dedup:
  fixes e :: "'a env"
  assumes "user client = Some u" and "user client' = Some u'"
    and "messageType b = Some ''webrtc_signal''" and "messageType b' = Some ''webrtc_signal''"
    and "normalized b \<in> set dedupSignals" and "normalized b' = normalized b"
    and "senderId b' = senderId b" and "targetId b' = targetId b" and "roomId b' = roomId b"
    and "now1 \<noteq> 0" and "now2 - now1 < dedupWindowMs"
    and "fst (onSendText e now1 st client b) = OkType ''webrtc_signal'' False"
    and "st1 = snd (snd (onSendText e now1 st client b))"
  shows "dedupKey e (normalized b) b =
           normalized b @ ''|'' @ tmpl (senderId b) @ ''|'' @ tmpl (targetId b) @ ''|'' @
           tmpl (roomId b) @ ''|'' @ payloadHash e b \<and>
         (\<forall>p. data b = Some p \<and> truthy p \<longrightarrow>
              payloadHash e b = spec_payload_prefix e (data b)) \<and>
         (data b = None \<or> (\<exists>p. data b = Some p \<and> \<not> truthy p) \<longrightarrow> payloadHash e b = []) \<and>
         (payloadHash e b' = payloadHash e b \<longrightarrow>
            onSendText e now2 st1 client' b' = (OkType ''webrtc_signal'' True, [], st1)) \<and>
         (\<forall>s s'. data b = Some (JString s) \<and> data b' = Some (JString s') \<and>
                 take 64 s' = take 64 s \<longrightarrow>
            onSendText e now2 st1 client' b' = (OkType ''webrtc_signal'' True, [], st1))"
proof -
  have r: "recentSignals st1 (dedupKey e (normalized b) b) = Some now1"
    unfolding assms(13) by (rule onSendText_records [OF assms(1,3,5,12)])
  have el: "normalized b' \<in> set dedupSignals" using assms(5,6) by simp
  have dup: "onSendText e now2 st1 client' b' = (OkType ''webrtc_signal'' True, [], st1)"
    if "payloadHash e b' = payloadHash e b"
  proof -
    have "dedupKey e (normalized b') b' = dedupKey e (normalized b) b"
      using assms(6) dedupKey_cong [OF assms(7-9) that] by simp
    with r have "recentSignals st1 (dedupKey e (normalized b') b') = Some now1" by simp
    from onSendText_absorbed [OF assms(2,4) el this assms(10,11)] show ?thesis .
  qed
  have "onSendText e now2 st1 client' b' = (OkType ''webrtc_signal'' True, [], st1)"
    if "data b = Some (JString s)" "data b' = Some (JString s')" "take 64 s' = take 64 s"
    for s s'
    using that by (intro dup) (simp add: payloadHash_string)
  then show ?thesis
    using dup payloadHash_truthy [of b _ e] payloadHash_falsy [of b e]
    by (simp add: dedupKey_def)
qed

theorem payload_prefix_dedup_witness:
  "long_a \<noteq> long_b \<and> take 64 long_b = take 64 long_a \<and>
   fst (onSendText env0 5000 st0 sockS (signal0 ''offer'' ''U'' (Some (JString long_a))))
     = OkType ''webrtc_signal'' False \<and>
   fst (onSendText env0 5200
          (snd (snd (onSendText env0 5000 st0 sockS
                       (signal0 ''offer'' ''U'' (Some (JString long_a))))))
          sockS (signal0 ''offer'' ''U'' (Some (JString long_b))))
     = OkType ''webrtc_signal'' True \<and>
   fst (snd (onSendText env0 5200
          (snd (snd (onSendText env0 5000 st0 sockS
                       (signal0 ''offer'' ''U'' (Some (JString long_a))))))
          sockS (signal0 ''offer'' ''U'' (Some (JString long_b)))))
     = [] \<and>
   payloadHash env0 (signal0 ''offer'' ''U'' (Some (JNum 0))) = [] \<and>
   payloadHash env0 (signal0 ''offer'' ''U'' (Some (JString long_a)))
     = spec_payload_prefix env0 (Some (JString long_a))"
proof -
  let ?b = "signal0 ''offer'' ''U'' (Some (JString long_a))"
  let ?b' = "signal0 ''offer'' ''U'' (Some (JString long_b))"
  have t: "take 64 long_b = take 64 long_a" "long_a \<noteq> long_b"
    by (simp_all add: long_a_def long_b_def)
  have h: "user sockS = Some (user_of ''S'')" "messageType ?b = Some ''webrtc_signal''"
    "messageType ?b' = Some ''webrtc_signal''" "normalized ?b \<in> set dedupSignals"
    "normalized ?b' = normalized ?b" "senderId ?b' = senderId ?b" "targetId ?b' = targetId ?b"
    "roomId ?b' = roomId ?b" "(5000::int) \<noteq> 0" "(5200::int) - 5000 < dedupWindowMs"
    by (simp_all add: sockS_def signal0_def normalized_def toLowerCase_def lower_char_def
          dedupSignals_def dedupWindowMs_def)
  have d: "data ?b = Some (JString long_a)" "data ?b' = Some (JString long_b)"
    "truthy (JString long_a)"
    by (simp_all add: signal0_def long_a_def)
  have f: "fst (onSendText env0 5000 st0 sockS ?b) = OkType ''webrtc_signal'' False"
    by (simp add: scenario_defs split: prod.splits)
  have z: "payloadHash env0 (signal0 ''offer'' ''U'' (Some (JNum 0))) = []"
    by (simp add: payloadHash_def signal0_def)
  note p = payload_prefix_dedup [OF h(1) h(1) h(2) h(3) h(4) h(5) h(6) h(7) h(8) h(9) h(10)
      f refl]
  from p have "onSendText env0 5200 (snd (snd (onSendText env0 5000 st0 sockS ?b))) sockS ?b'
         = (OkType ''webrtc_signal'' True, [], snd (snd (onSendText env0 5000 st0 sockS ?b)))"
    using d t by blast
  moreover from p have "payloadHash env0 ?b = spec_payload_prefix env0 (data ?b)"
    using d by blast
  ultimately show ?thesis using t f z d by simp
qed

text \<open>
  C9 as the specification states it fails: the number 0 and the string \<open>0\<close> have the
  same 64-character prefix in the specification's sense (the serialisation of the
  number is \<open>0\<close>), but the number is falsy and contributes the empty string to the
  key, so the second signal is routed and not reported as a duplicate.
\<close>

theorem payload_prefix_counterexample:
  "spec_payload_prefix env0 (Some (JNum 0)) = spec_payload_prefix env0 (Some (JString ''0'')) \<and>
   fst (onSendText env0 5000 st0 sockS (signal0 ''offer'' ''U'' (Some (JNum 0))))
     = OkType ''webrtc_signal'' False \<and>
   fst (onSendText env0 5200
          (snd (snd (onSendText env0 5000 st0 sockS (signal0 ''offer'' ''U'' (Some (JNum 0))))))
          sockS (signal0 ''offer'' ''U'' (Some (JString ''0''))))
     = OkType ''webrtc_signal'' False \<and>
   fst (snd (onSendText env0 5200
          (snd (snd (onSendText env0 5000 st0 sockS (signal0 ''offer'' ''U'' (Some (JNum 0))))))
          sockS (signal0 ''offer'' ''U'' (Some (JString ''0'')))))
     = [(''c2'', ''newMessage'', Body (signal0 ''offer'' ''U'' (Some (JString ''0''))))]"
  by (simp add: scenario_defs spec_payload_prefix_def split: prod.splits)

section \<open>Signals that bypass the cache\<close>

lemma filter_eligible_stale:
  assumes "\<forall>i\<in>R. find_socket socks i = None"
  shows "filter (eligible socks rn) (rev (filter (\<lambda>i. i \<notin> R) ids)) =
         filter (eligible socks rn) (rev ids)"
proof -
  have "eligible socks rn i \<Longrightarrow> i \<notin> R" for i
    using assms by (auto simp: eligible_def)
  then show ?thesis
    by (auto simp: rev_filter intro: filter_cong)
qed

lemma sendToUser_candidates:
  assumes "sendToUser st uid ev d opts = (sent, out, st')"
  shows "candidates_of st' u rn = candidates_of st u rn"
proof -
  from sendToUser_result [OF assms] obtain R where
    s: "sockets st' = sockets st"
    and R: "\<forall>i\<in>R. find_socket (sockets st) i = None"
    and c: "\<forall>u. connectionsFor st' u =
                (if u = uid then filter (\<lambda>i. i \<notin> R) (connectionsFor st u)
                 else connectionsFor st u)"
    by blast
  show ?thesis
    using s c filter_eligible_stale [OF R]
    by (simp add: candidates_of_def)
qed

lemma onSendText_signal_state_cases:
  fixes e :: "'a env"
  assumes "user client = Some u" "messageType b = Some ''webrtc_signal''"
  shows "snd (snd (onSendText e now st client b)) =
           (if fst (isDuplicateSignal e now st (normalized b) b) \<or> \<not> truthy_str (targetId b)
            then snd (isDuplicateSignal e now st (normalized b) b)
            else snd (snd (sendToUser (snd (isDuplicateSignal e now st (normalized b) b))
                   (tmpl (targetId b)) ''newMessage'' (Body b :: 'a emitted)
                   (Some \<lparr>opt_roomId = (if normalized b \<in> set roomScopedSignals
                                         then roomId b else None),
                          opt_multi = Some (normalized b \<in> set multiTargetSignals)\<rparr>))))"
  using assms
  by (auto simp: onSendText_def normalized_def [symmetric] Let_def split: prod.splits)

lemma onSendText_candidates:
  fixes e :: "'a env"
  shows "candidates_of (snd (snd (onSendText e now st client b))) uid rn =
           candidates_of st uid rn"
proof (cases "user client")
  case None
  then show ?thesis by (simp add: onSendText_def)
next
  case (Some u)
  show ?thesis
  proof (cases "messageType b = Some ''webrtc_signal''")
    case False
    with Some show ?thesis
      by (auto simp: onSendText_def Let_def candidates_of_def connectionsFor_def
            split: sum.splits)
  next
    case True
    let ?st1 = "snd (isDuplicateSignal e now st (normalized b) b)"
    have c1: "candidates_of ?st1 uid rn = candidates_of st uid rn"
      by (rule candidates_of_cong) (simp_all add: isDuplicateSignal_fields)
    have "candidates_of (snd (snd (sendToUser ?st1 t ev (d :: 'a emitted) opts))) uid rn =
            candidates_of ?st1 uid rn" for t ev d opts
      by (cases "sendToUser ?st1 t ev d opts") (auto dest: sendToUser_candidates)
    with c1 show ?thesis
      by (simp add: onSendText_signal_state_cases [OF Some True])
  qed
qed

lemma candidates_of_member:
  "i \<in> set (candidates_of st uid (Some r)) \<longleftrightarrow>
     i \<in> set (connectionsFor st uid) \<and>
     (\<exists>s. find_socket (sockets st) i = Some s \<and> r \<in> set (rooms s))"
  by (auto simp: candidates_of_def eligible_def split: option.splits)

lemma take1_hd: "xs \<noteq> [] \<Longrightarrow> take (Suc 0) xs = [hd xs]"
  by (cases xs) simp_all

lemma candidates_of_live_member:
  "i \<in> set (candidates_of st uid None) \<longleftrightarrow>
     i \<in> set (connectionsFor st uid) \<and> find_socket (sockets st) i \<noteq> None"
  by (auto simp: candidates_of_def eligible_def split: option.splits)

text \<open>
  C10 as amended. The type \<open>ice-candidate\<close> is room-scoped and not dedup-eligible. An
  \<open>ice-candidate\<close> signal of an authenticated socket is never reported as a duplicate
  and leaves the cache as it was; sending the same signal again emits what the first
  one emitted. With a target and a truthy room id, the signal goes to the newest socket
  of the target that is live and in the room, and to the room but the sender when the
  target has no such socket. With a target and a room id that is missing or empty, no
  room filter applies: the signal goes to the newest live socket of the target,
  whatever rooms that socket is in, and to the room but the sender when the target has
  no live socket.
\<close>

theorem ice_candidate_routing:
  fixes e :: "'a env"
  assumes "user client = Some u" and "messageType b = Some ''webrtc_signal''"
    and "normalized b = ''ice-candidate''"
    and "st1 = snd (snd (onSendText e now st client b))"
  shows "''ice-candidate'' \<in> set roomScopedSignals \<and> ''ice-candidate'' \<notin> set dedupSignals \<and>
         fst (onSendText e now st client b) = OkType ''webrtc_signal'' False \<and>
         recentSignals st1 = recentSignals st \<and>
         fst (onSendText e now' st1 client b) = OkType ''webrtc_signal'' False \<and>
         fst (snd (onSendText e now' st1 client b)) = fst (snd (onSendText e now st client b)) \<and>
         (truthy_str (targetId b) \<and> truthy_str (roomId b) \<longrightarrow>
            fst (snd (onSendText e now st client b)) =
              (if candidates_of st (tmpl (targetId b)) (Some (roomName_of (roomId b))) = []
               then client_to st client (roomName_of (roomId b)) ''newMessage'' (Body b)
               else [(hd (candidates_of st (tmpl (targetId b)) (Some (roomName_of (roomId b)))),
                      ''newMessage'', Body b)])) \<and>
         (\<forall>i r. i \<in> set (candidates_of st (tmpl (targetId b)) (Some r)) \<longleftrightarrow>
                  i \<in> set (connectionsFor st (tmpl (targetId b))) \<and>
                  (\<exists>s. find_socket (sockets st) i = Some s \<and> r \<in> set (rooms s))) \<and>
         (truthy_str (targetId b) \<and> \<not> truthy_str (roomId b) \<longrightarrow>
            fst (snd (onSendText e now st client b)) =
              (if candidates_of st (tmpl (targetId b)) None = []
               then client_to st client (roomName_of (roomId b)) ''newMessage'' (Body b)
               else [(hd (candidates_of st (tmpl (targetId b)) None), ''newMessage'', Body b)])) \<and>
         (\<forall>i. i \<in> set (candidates_of st (tmpl (targetId b)) None) \<longleftrightarrow>
                i \<in> set (connectionsFor st (tmpl (targetId b))) \<and>
                find_socket (sockets st) i \<noteq> None)"
proof -
  have m: "''ice-candidate'' \<in> set roomScopedSignals" "''ice-candidate'' \<notin> set dedupSignals"
    "''ice-candidate'' \<notin> set multiTargetSignals"
    by (simp_all add: roomScopedSignals_def dedupSignals_def multiTargetSignals_def)
  have nd: "isDuplicateSignal e t s (normalized b) b = (False, s)" for t s
    using m(2) assms(3) by (simp add: isDuplicateSignal_bypass)
  have r: "fst (onSendText e t s client b) = OkType ''webrtc_signal'' False" for t s
    using onSendText_signal_reply [OF assms(1,2), of e t s] nd by simp
  have c: "recentSignals st1 = recentSignals st"
    unfolding assms(4) using onSendText_signal_state(3) [OF assms(1,2), of e now st] nd by simp
  have s1: "sockets st1 = sockets st"
    unfolding assms(4) by (rule onSendText_signal_state(1) [OF assms(1,2)])
  have c1: "candidates_of st1 uid rn = candidates_of st uid rn" for uid rn
    unfolding assms(4) by (rule onSendText_candidates)
  have again: "fst (snd (onSendText e now' st1 client b)) =
                 fst (snd (onSendText e now st client b))"
    using nd c1
    by (simp add: onSendText_signal_emissions [OF assms(1,2)] client_to_cong [OF s1])
  have sc: "scope_of b = Some (roomName_of (roomId b))" if "truthy_str (roomId b)"
    using that m(1) assms(3) by (simp add: scope_of_def)
  have nsc: "scope_of b = None" if "\<not> truthy_str (roomId b)"
    using that by (simp add: scope_of_def)
  have em: "fst (snd (onSendText e now st client b)) =
              (if candidates_of st (tmpl (targetId b)) (Some (roomName_of (roomId b))) = []
               then client_to st client (roomName_of (roomId b)) ''newMessage'' (Body b)
               else [(hd (candidates_of st (tmpl (targetId b)) (Some (roomName_of (roomId b)))),
                      ''newMessage'', Body b)])"
    if "truthy_str (targetId b)" "truthy_str (roomId b)"
    using that nd m(3) assms(3) sc
    by (simp add: onSendText_signal_emissions [OF assms(1,2)] take1_hd)
  have em': "fst (snd (onSendText e now st client b)) =
              (if candidates_of st (tmpl (targetId b)) None = []
               then client_to st client (roomName_of (roomId b)) ''newMessage'' (Body b)
               else [(hd (candidates_of st (tmpl (targetId b)) None), ''newMessage'', Body b)])"
    if "truthy_str (targetId b)" "\<not> truthy_str (roomId b)"
    using that nd m(3) assms(3) nsc
    by (simp add: onSendText_signal_emissions [OF assms(1,2)] take1_hd)
  show ?thesis
    using m(1,2) r c again em em' candidates_of_member candidates_of_live_member by blast
qed

theorem ice_candidate_routing_witness:
  "fst (onSendText env0 5000 st0 sockS (signal0 ''ICE-Candidate'' ''U'' (Some (JString ''c''))))
     = OkType ''webrtc_signal'' False \<and>
   fst (snd (onSendText env0 5000 st0 sockS
               (signal0 ''ICE-Candidate'' ''U'' (Some (JString ''c'')))))
     = [(''c2'', ''newMessage'', Body (signal0 ''ICE-Candidate'' ''U'' (Some (JString ''c''))))] \<and>
   fst (snd (onSendText env0 5001
          (snd (snd (onSendText env0 5000 st0 sockS
                       (signal0 ''ICE-Candidate'' ''U'' (Some (JString ''c''))))))
          sockS (signal0 ''ICE-Candidate'' ''U'' (Some (JString ''c'')))))
     = [(''c2'', ''newMessage'', Body (signal0 ''ICE-Candidate'' ''U'' (Some (JString ''c''))))] \<and>
   candidates_of st0 ''V'' (Some ''room:R'') = [] \<and>
   map fst (fst (snd (onSendText env0 5000 st0 sockS
                        (signal0 ''ice-candidate'' ''V'' (Some (JString ''c''))))))
     = [''c1'', ''c2'', ''x1''] \<and>
   candidates_of st_away ''U'' (Some ''room:R'') = [''c1''] \<and>
   map fst (fst (snd (onSendText env0 5000 st_away sockS
                        (signal0 ''ice-candidate'' ''U'' (Some (JString ''c''))))))
     = [''c1''] \<and>
   candidates_of st_away ''U'' None = [''c2'', ''c1''] \<and>
   map fst (fst (snd (onSendText env0 5000 st_away sockS
                        ((signal0 ''ice-candidate'' ''U'' (Some (JString ''c'')))
                           \<lparr>roomId := Some []\<rparr>))))
     = [''c2'']"
proof -
  let ?b = "signal0 ''ICE-Candidate'' ''U'' (Some (JString ''c''))"
  let ?a = "signal0 ''ice-candidate'' ''U'' (Some (JString ''c''))"
  let ?n = "(signal0 ''ice-candidate'' ''U'' (Some (JString ''c'')))\<lparr>roomId := Some []\<rparr>"
  have h: "user sockS = Some (user_of ''S'')" "messageType ?b = Some ''webrtc_signal''"
    "normalized ?b = ''ice-candidate''"
    "messageType ?a = Some ''webrtc_signal''" "normalized ?a = ''ice-candidate''"
    "messageType ?n = Some ''webrtc_signal''" "normalized ?n = ''ice-candidate''"
    by (simp_all add: sockS_def signal0_def normalized_def toLowerCase_def lower_char_def)
  have o: "fst (snd (onSendText env0 5000 st0 sockS ?b)) = [(''c2'', ''newMessage'', Body ?b)]"
    by (simp add: scenario_defs split: prod.splits)
  have v: "candidates_of st0 ''V'' (Some ''room:R'') = []"
    "map fst (fst (snd (onSendText env0 5000 st0 sockS
                        (signal0 ''ice-candidate'' ''V'' (Some (JString ''c''))))))
     = [''c1'', ''c2'', ''x1'']"
    by (simp_all add: scenario_defs candidates_of_def eligible_def connectionsFor_def
          split: prod.splits)
  have w: "candidates_of st_away ''U'' (Some ''room:R'') = [''c1'']"
    "candidates_of st_away ''U'' None = [''c2'', ''c1'']"
    by (simp_all add: scenario_defs st_away_def candidates_of_def eligible_def
          connectionsFor_def)
  have t: "truthy_str (targetId ?a)" "truthy_str (roomId ?a)" "tmpl (targetId ?a) = ''U''"
    "roomName_of (roomId ?a) = ''room:R''"
    "truthy_str (targetId ?n)" "\<not> truthy_str (roomId ?n)" "tmpl (targetId ?n) = ''U''"
    by (simp_all add: signal0_def truthy_str_def tmpl_def roomName_of_def)
  from ice_candidate_routing [OF h(1) h(4) h(5) refl, of env0 5000 st_away 5001] t w
  have 1: "map fst (fst (snd (onSendText env0 5000 st_away sockS ?a))) = [''c1'']"
    by simp
  from ice_candidate_routing [OF h(1) h(6) h(7) refl, of env0 5000 st_away 5001] t w
  have 2: "map fst (fst (snd (onSendText env0 5000 st_away sockS ?n))) = [''c2'']"
    by simp
  from ice_candidate_routing [OF h(1) h(2) h(3) refl, of env0 5000 st0 5001] o v w 1 2
  show ?thesis
    by simp
qed

text \<open>
  C10 as the specification states it fails: an \<open>ice-candidate\<close> signal whose room id is
  empty, and one whose room id is missing, are emitted to the newest socket \<open>c2\<close> of
  the target, which is in no room at all.
\<close>

theorem ice_candidate_room_counterexample:
  "normalized ((signal0 ''ice-candidate'' ''U'' None)\<lparr>roomId := Some []\<rparr>) = ''ice-candidate'' \<and>
   find_socket (sockets st_away) ''c2''
     = Some \<lparr>sid = ''c2'', user = Some (user_of ''U''), rooms = []\<rparr> \<and>
   fst (snd (onSendText env0 5000 st_away sockS
               ((signal0 ''ice-candidate'' ''U'' None)\<lparr>roomId := Some []\<rparr>)))
     = [(''c2'', ''newMessage'',
         Body ((signal0 ''ice-candidate'' ''U'' None)\<lparr>roomId := Some []\<rparr>))] \<and>
   fst (snd (onSendText env0 5000 st_away sockS
               ((signal0 ''ice-candidate'' ''U'' None)\<lparr>roomId := None\<rparr>)))
     = [(''c2'', ''newMessage'',
         Body ((signal0 ''ice-candidate'' ''U'' None)\<lparr>roomId := None\<rparr>))]"
  by (simp add: scenario_defs st_away_def split: prod.splits)

section \<open>Targeted delivery and the fallback to the room\<close>

lemma candidates_of_live:
  assumes "userSockets st uid = Some ids"
    and "\<forall>i\<in>set ids. find_socket (sockets st) i \<noteq> None"
  shows "candidates_of st uid None = rev ids"
    and "candidates_of st uid (Some r) =
           filter (\<lambda>i. \<exists>s. find_socket (sockets st) i = Some s \<and> r \<in> set (rooms s)) (rev ids)"
proof -
  have "filter (eligible (sockets st) None) (rev ids) = rev ids"
    using assms(2) by (auto simp: eligible_def split: option.splits)
  then show "candidates_of st uid None = rev ids"
    using assms(1) by (simp add: candidates_of_def connectionsFor_def)
  have "eligible (sockets st) (Some r) =
          (\<lambda>i. \<exists>s. find_socket (sockets st) i = Some s \<and> r \<in> set (rooms s))"
    by (auto simp: eligible_def fun_eq_iff split: option.splits)
  then show "candidates_of st uid (Some r) =
           filter (\<lambda>i. \<exists>s. find_socket (sockets st) i = Some s \<and> r \<in> set (rooms s)) (rev ids)"
    using assms(1) by (simp add: candidates_of_def connectionsFor_def)
qed

lemma multi_target_not_scoped:
  "normalized b \<in> set multiTargetSignals \<Longrightarrow> scope_of b = None"
  by (auto simp: multiTargetSignals_def roomScopedSignals_def scope_of_def)

text \<open>A connection whose token verifies is registered after the sockets already there.\<close>

lemma connect_registers_last:
  assumes "find_socket (sockets st) i = None"
    and "or_js (auth_token hs) (query_token hs) = Some tok" and "tok \<noteq> []"
    and "jwtService_verify e tok = Some p" and "userId_of p = Some uid" and "uid \<noteq> []"
    and "i \<notin> set (connectionsFor st uid)"
  shows "connectionsFor (step e st (Connect i hs)) uid = connectionsFor st uid @ [i]"
  using assms
  by (simp add: handleConnection_def Let_def connectionsFor_def set_add_def
        split: option.splits)

text \<open>
  C1. Let the target of a routed signal have the registered sockets \<open>ids\<close>, in the
  order of their registration, at least one and all live. A targeted delivery goes to
  the candidates, which are the sockets of \<open>ids\<close> in reverse order, restricted to the
  members of the room when the delivery is scoped to a room: to all of them with
  \<open>multi\<close>, to the first of them without. In \<^verbatim>\<open>onSendText\<close> a multi-target type
  reaches all the sockets of \<open>ids\<close>; any other type reaches exactly one socket, the one
  registered last, or the one registered last among the members of the room when the
  type is room-scoped. A new connection of the target is registered after \<open>ids\<close>, so
  the newest session is the first candidate.
\<close>

theorem multi_device_delivery:
  fixes e :: "'a env"
  assumes "user client = Some u" and "messageType b = Some ''webrtc_signal''"
    and "targetId b = Some uid" and "uid \<noteq> []"
    and "fst (onSendText e now st client b) = OkType ''webrtc_signal'' False"
    and "userSockets st uid = Some ids" and "ids \<noteq> []"
    and "\<forall>i\<in>set ids. find_socket (sockets st) i \<noteq> None"
  shows "candidates_of st uid None = rev ids \<and>
         (\<forall>r. candidates_of st uid (Some r) =
            filter (\<lambda>i. \<exists>s. find_socket (sockets st) i = Some s \<and> r \<in> set (rooms s))
              (rev ids)) \<and>
         (\<forall>ev (d :: 'a emitted) opts.
            fst (snd (sendMessageToUser st uid ev d opts)) =
              map (\<lambda>i. (i, ev, d))
                (if multi_option opts then candidates_of st uid (roomName_option opts)
                 else take 1 (candidates_of st uid (roomName_option opts)))) \<and>
         (normalized b \<in> set multiTargetSignals \<longrightarrow>
            fst (snd (onSendText e now st client b)) =
              map (\<lambda>i. (i, ''newMessage'', Body b)) (rev ids)) \<and>
         (normalized b \<notin> set multiTargetSignals \<and> scope_of b = None \<longrightarrow>
            fst (snd (onSendText e now st client b)) = [(last ids, ''newMessage'', Body b)]) \<and>
         (\<forall>r. normalized b \<notin> set multiTargetSignals \<and> scope_of b = Some r \<and>
              candidates_of st uid (Some r) \<noteq> [] \<longrightarrow>
            fst (snd (onSendText e now st client b)) =
              [(hd (candidates_of st uid (Some r)), ''newMessage'', Body b)]) \<and>
         (\<forall>i hs tok p.
            find_socket (sockets st) i = None \<and>
            or_js (auth_token hs) (query_token hs) = Some tok \<and> tok \<noteq> [] \<and>
            jwtService_verify e tok = Some p \<and> userId_of p = Some uid \<longrightarrow>
            connectionsFor (step e st (Connect i hs)) uid = ids @ [i])"
proof -
  note live = candidates_of_live [OF assms(6,8)]
  have nd: "\<not> fst (isDuplicateSignal e now st (normalized b) b)"
    using assms(5) onSendText_signal_reply [OF assms(1,2), of e now st] by simp
  have t: "truthy_str (targetId b)" "tmpl (targetId b) = uid"
    using assms(3,4) by (simp_all add: truthy_str_def tmpl_def)
  note em = onSendText_signal_emissions [OF assms(1,2), of e now st]
  have api: "fst (snd (sendMessageToUser st uid ev d opts)) =
              map (\<lambda>i. (i, ev, d))
                (if multi_option opts then candidates_of st uid (roomName_option opts)
                 else take 1 (candidates_of st uid (roomName_option opts)))"
    for ev and d :: "'a emitted" and opts
    by (cases "sendToUser st uid ev d opts")
       (auto simp: sendMessageToUser_def dest: sendToUser_result)
  have many: "fst (snd (onSendText e now st client b)) =
              map (\<lambda>i. (i, ''newMessage'', Body b)) (rev ids)"
    if "normalized b \<in> set multiTargetSignals"
    using that nd assms(7) multi_target_not_scoped [OF that] live(1) t by (simp add: em)
  have one: "fst (snd (onSendText e now st client b)) = [(last ids, ''newMessage'', Body b)]"
    if "normalized b \<notin> set multiTargetSignals" "scope_of b = None"
    using that nd assms(7) live(1) t by (simp add: em take1_hd hd_rev)
  have scoped: "fst (snd (onSendText e now st client b)) =
              [(hd (candidates_of st uid (Some r)), ''newMessage'', Body b)]"
    if "normalized b \<notin> set multiTargetSignals" "scope_of b = Some r"
      "candidates_of st uid (Some r) \<noteq> []" for r
    using that nd t by (simp add: em take1_hd)
  have reg: "connectionsFor (step e st (Connect i hs)) uid = ids @ [i]"
    if "find_socket (sockets st) i = None"
      "or_js (auth_token hs) (query_token hs) = Some tok" "tok \<noteq> []"
      "jwtService_verify e tok = Some p" "userId_of p = Some uid" for i hs tok p
  proof -
    have c: "connectionsFor st uid = ids" using assms(6) by (simp add: connectionsFor_def)
    have "i \<notin> set (connectionsFor st uid)" using that(1) assms(8) c by auto
    from connect_registers_last [OF that assms(4) this] c show ?thesis by simp
  qed
  show ?thesis
    using live api many one scoped reg by blast
qed


theorem multi_device_delivery_witness:
  "fst (snd (onSendText env0 5000 st0 sockS (signal0 ''call-request'' ''U'' None)))
     = [(''c2'', ''newMessage'', Body (signal0 ''call-request'' ''U'' None)),
        (''c1'', ''newMessage'', Body (signal0 ''call-request'' ''U'' None))] \<and>
   fst (snd (onSendText env0 5000 st0 sockS (signal0 ''hangup'' ''U'' None)))
     = [(''c2'', ''newMessage'', Body (signal0 ''hangup'' ''U'' None))] \<and>
   fst (snd (onSendText env0 5000 st_away sockS (signal0 ''offer'' ''U'' None)))
     = [(''c1'', ''newMessage'', Body (signal0 ''offer'' ''U'' None))] \<and>
   fst (snd (sendMessageToUser st_away ''U'' ''alert'' (Other JNull :: string emitted)
               (Some \<lparr>opt_roomId = None, opt_multi = None\<rparr>)))
     = [(''c2'', ''alert'', Other JNull), (''c1'', ''alert'', Other JNull)] \<and>
   fst (snd (sendMessageToUser st_away ''U'' ''alert'' (Other JNull :: string emitted)
               (Some \<lparr>opt_roomId = Some ''R'', opt_multi = Some True\<rparr>)))
     = [(''c1'', ''alert'', Other JNull)] \<and>
   connectionsFor (step env0 st0 (Connect ''c3'' (hs0 ''U''))) ''U'' = [''c1'', ''c2'', ''c3'']"
proof -
  have h: "user sockS = Some (user_of ''S'')"
    "messageType (signal0 t ''U'' None) = Some ''webrtc_signal''"
    "targetId (signal0 t ''U'' None) = Some ''U''" "''U'' \<noteq> []"
    "userSockets st0 ''U'' = Some [''c1'', ''c2'']" "[''c1'', ''c2''] \<noteq> ([] :: string list)"
    "\<forall>i\<in>set [''c1'', ''c2'']. find_socket (sockets st0) i \<noteq> None"
    "userSockets st_away ''U'' = Some [''c1'', ''c2'']"
    "\<forall>i\<in>set [''c1'', ''c2'']. find_socket (sockets st_away) i \<noteq> None" for t
    by (simp_all add: sockS_def signal0_def st0_def st_away_def find_socket_def)
  have f: "fst (onSendText env0 5000 st0 sockS (signal0 ''call-request'' ''U'' None))
             = OkType ''webrtc_signal'' False"
    "fst (onSendText env0 5000 st0 sockS (signal0 ''hangup'' ''U'' None))
             = OkType ''webrtc_signal'' False"
    "fst (onSendText env0 5000 st_away sockS (signal0 ''offer'' ''U'' None))
             = OkType ''webrtc_signal'' False"
    by (simp_all add: scenario_defs st_away_def split: prod.splits)
  have n: "normalized (signal0 ''call-request'' ''U'' None) \<in> set multiTargetSignals"
    "normalized (signal0 ''hangup'' ''U'' None) \<notin> set multiTargetSignals"
    "scope_of (signal0 ''hangup'' ''U'' None) = None"
    "normalized (signal0 ''offer'' ''U'' None) \<notin> set multiTargetSignals"
    "scope_of (signal0 ''offer'' ''U'' None) = Some ''room:R''"
    by (simp_all add: scenario_defs scope_of_def)
  have c: "candidates_of st_away ''U'' (Some ''room:R'') = [''c1'']"
    "candidates_of st_away ''U'' None = [''c2'', ''c1'']"
    by (simp_all add: candidates_of_def eligible_def connectionsFor_def st_away_def st0_def
          find_socket_def sockS_def sockX_def)
  have r: "find_socket (sockets st0) ''c3'' = None"
    "or_js (auth_token (hs0 ''U'')) (query_token (hs0 ''U'')) = Some ''U''"
    "jwtService_verify env0 ''U'' = Some (user_of ''U'')"
    "userId_of (user_of ''U'') = Some ''U''"
    by (simp_all add: scenario_defs hs0_def or_js_def userId_of_def)
  note a = multi_device_delivery [OF h(1) h(2) h(3) h(4) f(1) h(5) h(6) h(7)]
  note b = multi_device_delivery [OF h(1) h(2) h(3) h(4) f(2) h(5) h(6) h(7)]
  note d = multi_device_delivery [OF h(1) h(2) h(3) h(4) f(3) h(8) h(6) h(9)]
  have 1: "fst (snd (onSendText env0 5000 st0 sockS (signal0 ''call-request'' ''U'' None)))
     = [(''c2'', ''newMessage'', Body (signal0 ''call-request'' ''U'' None)),
        (''c1'', ''newMessage'', Body (signal0 ''call-request'' ''U'' None))]"
    using a n(1) by simp
  have 2: "fst (snd (onSendText env0 5000 st0 sockS (signal0 ''hangup'' ''U'' None)))
     = [(''c2'', ''newMessage'', Body (signal0 ''hangup'' ''U'' None))]"
    using b n(2,3) by simp
  have 3: "fst (snd (onSendText env0 5000 st_away sockS (signal0 ''offer'' ''U'' None)))
     = [(''c1'', ''newMessage'', Body (signal0 ''offer'' ''U'' None))]"
    using d n(4,5) c(1) by simp
  have 4: "fst (snd (sendMessageToUser st_away ''U'' ''alert'' (Other JNull :: string emitted)
               (Some \<lparr>opt_roomId = None, opt_multi = None\<rparr>)))
     = [(''c2'', ''alert'', Other JNull), (''c1'', ''alert'', Other JNull)]"
    "fst (snd (sendMessageToUser st_away ''U'' ''alert'' (Other JNull :: string emitted)
               (Some \<lparr>opt_roomId = Some ''R'', opt_multi = Some True\<rparr>)))
     = [(''c1'', ''alert'', Other JNull)]"
    using d c by (simp_all add: multi_option_def roomName_option_def truthy_str_def
                    roomName_of_def tmpl_def)
  have 5: "connectionsFor (step env0 st0 (Connect ''c3'' (hs0 ''U''))) ''U''
             = [''c1'', ''c2'', ''c3'']"
  proof -
    from a have "\<forall>i hs tok p.
            find_socket (sockets st0) i = None \<and>
            or_js (auth_token hs) (query_token hs) = Some tok \<and> tok \<noteq> [] \<and>
            jwtService_verify env0 tok = Some p \<and> userId_of p = Some ''U'' \<longrightarrow>
            connectionsFor (step env0 st0 (Connect i hs)) ''U'' = [''c1'', ''c2''] @ [i]"
      by (elim conjE)
    from this [rule_format, of "''c3''" "hs0 ''U''" "''U''" "user_of ''U''"] r
    show ?thesis by simp
  qed
  from 1 2 3 4 5 show ?thesis by blast
qed

text \<open>
  C3. A routed signal with a target whose delivery reaches no socket, because the target
  has no entry in the registry, or none of its registered sockets is live, or none of
  its live sockets is a candidate for the room the signal is scoped to, is emitted to
  every socket of the room of the body except the sender's socket, and to no other.
\<close>

theorem room_fallback:
  fixes e :: "'a env"
  assumes "user client = Some u" and "messageType b = Some ''webrtc_signal''"
    and "truthy_str (targetId b)"
    and "fst (onSendText e now st client b) = OkType ''webrtc_signal'' False"
    and "userSockets st (tmpl (targetId b)) = None \<or>
         (\<forall>i\<in>set (connectionsFor st (tmpl (targetId b))). find_socket (sockets st) i = None) \<or>
         candidates_of st (tmpl (targetId b)) (scope_of b) = []"
  shows "candidates_of st (tmpl (targetId b)) (scope_of b) = [] \<and>
         fst (snd (onSendText e now st client b)) =
           map (\<lambda>s. (sid s, ''newMessage'', Body b))
             (filter (\<lambda>s. roomName_of (roomId b) \<in> set (rooms s) \<and> sid s \<noteq> sid client)
                (sockets st)) \<and>
         fst ` set (fst (snd (onSendText e now st client b))) =
           {sid s | s. s \<in> set (sockets st) \<and> roomName_of (roomId b) \<in> set (rooms s) \<and>
                       sid s \<noteq> sid client}"
proof -
  have nd: "\<not> fst (isDuplicateSignal e now st (normalized b) b)"
    using assms(4) onSendText_signal_reply [OF assms(1,2), of e now st] by simp
  have z: "candidates_of st (tmpl (targetId b)) (scope_of b) = []"
    using assms(5)
    by (auto simp: candidates_of_def connectionsFor_def eligible_def filter_empty_conv)
  have em: "fst (snd (onSendText e now st client b)) =
           map (\<lambda>s. (sid s, ''newMessage'', Body b))
             (filter (\<lambda>s. roomName_of (roomId b) \<in> set (rooms s) \<and> sid s \<noteq> sid client)
                (sockets st))"
    using nd z by (simp add: onSendText_signal_emissions [OF assms(1,2)] client_to_def)
  have "fst ` set (fst (snd (onSendText e now st client b))) =
           {sid s | s. s \<in> set (sockets st) \<and> roomName_of (roomId b) \<in> set (rooms s) \<and>
                       sid s \<noteq> sid client}"
    unfolding em by (auto simp: image_iff)
  with z em show ?thesis by blast
qed

theorem room_fallback_witness:
  "userSockets st0 ''W'' = None \<and>
   map fst (fst (snd (onSendText env0 5000 st0 sockS (signal0 ''call-request'' ''W'' None))))
     = [''c1'', ''c2'', ''x1''] \<and>
   connectionsFor st_stale ''Z'' = [''z1''] \<and> find_socket (sockets st_stale) ''z1'' = None \<and>
   map fst (fst (snd (onSendText env0 5000 st_stale sockS (signal0 ''hangup'' ''Z'' None))))
     = [''c1'', ''c2'', ''x1''] \<and>
   connectionsFor st0 ''V'' = [''v1''] \<and>
   candidates_of st0 ''V'' (scope_of (signal0 ''offer'' ''V'' None)) = [] \<and>
   map fst (fst (snd (onSendText env0 5000 st0 sockS (signal0 ''offer'' ''V'' None))))
     = [''c1'', ''c2'', ''x1'']"
proof -
  have h: "user sockS = Some (user_of ''S'')"
    "messageType (signal0 t x None) = Some ''webrtc_signal''"
    "truthy_str (targetId (signal0 t (c # x) None))"
    "tmpl (targetId (signal0 t x None)) = x" for t x c
    by (simp_all add: sockS_def signal0_def truthy_str_def tmpl_def)
  have f: "fst (onSendText env0 5000 st0 sockS (signal0 ''call-request'' ''W'' None))
             = OkType ''webrtc_signal'' False"
    "fst (onSendText env0 5000 st_stale sockS (signal0 ''hangup'' ''Z'' None))
             = OkType ''webrtc_signal'' False"
    "fst (onSendText env0 5000 st0 sockS (signal0 ''offer'' ''V'' None))
             = OkType ''webrtc_signal'' False"
    by (simp_all add: scenario_defs st_stale_def split: prod.splits)
  have z: "userSockets st0 ''W'' = None"
    "connectionsFor st_stale ''Z'' = [''z1'']" "find_socket (sockets st_stale) ''z1'' = None"
    "connectionsFor st0 ''V'' = [''v1'']"
    "candidates_of st0 ''V'' (scope_of (signal0 ''offer'' ''V'' None)) = []"
    by (simp_all add: scenario_defs st_stale_def scope_of_def candidates_of_def eligible_def
          connectionsFor_def)
  have s: "sockets st_stale = sockets st0"
    "map sid (filter (\<lambda>s. ''room:R'' \<in> set (rooms s) \<and> sid s \<noteq> sid sockS) (sockets st0))
       = [''c1'', ''c2'', ''x1'']"
    "roomName_of (roomId (signal0 t x None)) = ''room:R''" for t x
    by (simp_all add: scenario_defs st_stale_def)
  have m: "map fst (map (\<lambda>s. (sid s, ev, d)) xs) = map sid xs" for ev d and xs :: "socket list"
    by simp
  from room_fallback [OF h(1) h(2) h(3) f(1)] z(1)
  have 1: "map fst (fst (snd (onSendText env0 5000 st0 sockS
                                (signal0 ''call-request'' ''W'' None))))
     = [''c1'', ''c2'', ''x1'']"
    by (simp add: h(4) s m del: map_map)
  from room_fallback [OF h(1) h(2) h(3) f(2)] z(2,3)
  have 2: "map fst (fst (snd (onSendText env0 5000 st_stale sockS
                                (signal0 ''hangup'' ''Z'' None))))
     = [''c1'', ''c2'', ''x1'']"
    by (simp add: h(4) s m del: map_map)
  from room_fallback [OF h(1) h(2) h(3) f(3)] z(5)
  have 3: "map fst (fst (snd (onSendText env0 5000 st0 sockS (signal0 ''offer'' ''V'' None))))
     = [''c1'', ''c2'', ''x1'']"
    by (simp add: h(4) s m del: map_map)
  from 1 2 3 z show ?thesis by blast
qed

section \<open>Anonymous connections and the chat relay\<close>

text \<open>
  C5 as amended. For a socket without a verified identity, \<^verbatim>\<open>joinRoom\<close>,
  \<^verbatim>\<open>sendText\<close> and \<^verbatim>\<open>signal\<close> are rejected with the error \<open>Unauthorized\<close>, emit
  nothing and leave the state, and with it the room memberships and the calls made to
  the message service, as it was; \<^verbatim>\<open>leaveRoom\<close> succeeds: the socket is in the room
  no longer, and the presence event \<open>left\<close> goes to the sockets that remain in the room.
\<close>

theorem anonymous_connection:
  fixes e :: "'a env"
  assumes "user client = None"
  shows "(onJoinRoom st client r :: 'a reply \<times> 'a emission list \<times> state)
           = (Error ''Unauthorized'', [], st) \<and>
         onSendText e now st client b = (Error ''Unauthorized'', [], st) \<and>
         onSignal e st client sb = (Error ''Unauthorized'', [], st) \<and>
         fst (onLeaveRoom st client r :: 'a reply \<times> 'a emission list \<times> state) = OkRoom r \<and>
         (\<forall>s\<in>set (sockets (snd (snd (onLeaveRoom st client r
                                        :: 'a reply \<times> 'a emission list \<times> state)))).
            sid s = sid client \<longrightarrow> roomName_of r \<notin> set (rooms s)) \<and>
         map sid (sockets (snd (snd (onLeaveRoom st client r
                                        :: 'a reply \<times> 'a emission list \<times> state))))
           = map sid (sockets st) \<and>
         fst (snd (onLeaveRoom st client r :: 'a reply \<times> 'a emission list \<times> state)) =
           map (\<lambda>s. (sid s, ''presence'', Presence (sid client) ''left'' r))
             (filter (\<lambda>s. roomName_of r \<in> set (rooms s) \<and> sid s \<noteq> sid client) (sockets st))"
proof -
  have "filter (\<lambda>s. roomName_of r \<in> set (rooms s)) (leave (sid client) (roomName_of r) socks)
          = filter (\<lambda>s. roomName_of r \<in> set (rooms s) \<and> sid s \<noteq> sid client) socks"
    for socks
    by (induction socks) (auto simp: leave_def set_delete_def)
  moreover have "map sid (leave i x socks) = map sid socks" for i x socks
    by (induction socks) (auto simp: leave_def)
  ultimately show ?thesis
    using assms
    by (auto simp: onJoinRoom_def onSendText_def onSignal_def onLeaveRoom_def Let_def
          server_to_def leave_def set_delete_def)
qed

theorem anonymous_connection_witness:
  "user sockX = None \<and>
   (onSendText env0 5000 st0 sockX (chat0 (Some ''hi'')))
     = (Error ''Unauthorized'', [], st0) \<and>
   (onSendText env0 5000 st0 sockX (signal0 ''offer'' ''U'' None))
     = (Error ''Unauthorized'', [], st0) \<and>
   fst (onLeaveRoom st0 sockX (Some ''R'') :: string reply \<times> string emission list \<times> state)
     = OkRoom (Some ''R'') \<and>
   fst (snd (onLeaveRoom st0 sockX (Some ''R'')
               :: string reply \<times> string emission list \<times> state))
     = [(''s1'', ''presence'', Presence ''x1'' ''left'' (Some ''R'')),
        (''c1'', ''presence'', Presence ''x1'' ''left'' (Some ''R'')),
        (''c2'', ''presence'', Presence ''x1'' ''left'' (Some ''R''))]"
proof -
  have h: "user sockX = None" by (simp add: sockX_def)
  have "map (\<lambda>s. (sid s, ''presence'',
                    Presence (sid sockX) ''left'' (Some ''R'') :: string emitted))
             (filter (\<lambda>s. roomName_of (Some ''R'') \<in> set (rooms s) \<and> sid s \<noteq> sid sockX)
                (sockets st0))
        = [(''s1'', ''presence'', Presence ''x1'' ''left'' (Some ''R'')),
           (''c1'', ''presence'', Presence ''x1'' ''left'' (Some ''R'')),
           (''c2'', ''presence'', Presence ''x1'' ''left'' (Some ''R''))]"
    by (simp add: scenario_defs)
  with anonymous_connection [OF h, of st0 "Some ''R''" env0 5000 "chat0 (Some ''hi'')"]
    anonymous_connection [OF h, of st0 "Some ''R''" env0 5000 "signal0 ''offer'' ''U'' None"]
    h
  show ?thesis by simp
qed

text \<open>
  C5 as the specification states it fails: \<^verbatim>\<open>joinRoom\<close> of a socket without a
  verified identity is rejected, and the socket is not added to the room.
\<close>

theorem anonymous_join_counterexample:
  "user sockX = None \<and>
   (onJoinRoom st0 sockX (Some ''Q'') :: string reply \<times> string emission list \<times> state)
     = (Error ''Unauthorized'', [], st0) \<and>
   (onJoinRoom st0 sockX (Some ''Q'') :: string reply \<times> string emission list \<times> state)
     \<noteq> (OkRoom (Some ''Q''), [(''x1'', ''presence'', Presence ''x1'' ''joined'' (Some ''Q''))],
         st0\<lparr>sockets := join ''x1'' ''room:Q'' (sockets st0)\<rparr>)"
  by (simp add: onJoinRoom_def sockX_def)

text \<open>
  C6. A \<^verbatim>\<open>sendText\<close> of an authenticated socket that is not a signal calls the
  message service once. When the service fails, the error goes back to the caller and
  nothing is emitted; when it succeeds, the message it returns goes back to the caller
  and is emitted as \<open>newMessage\<close> to every socket in the room of the body.
\<close>

theorem chat_persist_then_broadcast:
  fixes e :: "'a env"
  assumes "user client = Some u" and "messageType b \<noteq> Some ''webrtc_signal''"
  shows "(\<forall>err. messageService_sendText e b u = Inl err \<longrightarrow>
            fst (onSendText e now st client b) = Error err \<and>
            fst (snd (onSendText e now st client b)) = []) \<and>
         (\<forall>msg. messageService_sendText e b u = Inr msg \<longrightarrow>
            fst (onSendText e now st client b) = Persisted msg \<and>
            fst (snd (onSendText e now st client b)) =
              map (\<lambda>s. (sid s, ''newMessage'', Message msg))
                (filter (\<lambda>s. roomName_of (roomId b) \<in> set (rooms s)) (sockets st)) \<and>
            fst ` set (fst (snd (onSendText e now st client b))) =
              {sid s | s. s \<in> set (sockets st) \<and> roomName_of (roomId b) \<in> set (rooms s)}) \<and>
         service_calls (snd (snd (onSendText e now st client b))) =
           service_calls st @ [SendText b u] \<and>
         sockets (snd (snd (onSendText e now st client b))) = sockets st \<and>
         userSockets (snd (snd (onSendText e now st client b))) = userSockets st \<and>
         recentSignals (snd (snd (onSendText e now st client b))) = recentSignals st"
  using assms
  by (cases "messageService_sendText e b u")
     (auto simp: onSendText_def Let_def server_to_def image_iff)

theorem chat_persist_then_broadcast_witness:
  "onSendText env0 5000 st0 sockS (chat0 None)
     = (Error ''content is required'', [],
        st0\<lparr>service_calls := [SendText (chat0 None) (user_of ''S'')]\<rparr>) \<and>
   fst (onSendText env0 5000 st0 sockS (chat0 (Some ''hi''))) = Persisted ''hi'' \<and>
   fst (snd (onSendText env0 5000 st0 sockS (chat0 (Some ''hi''))))
     = [(''s1'', ''newMessage'', Message ''hi''), (''c1'', ''newMessage'', Message ''hi''),
        (''c2'', ''newMessage'', Message ''hi''), (''x1'', ''newMessage'', Message ''hi'')]"
proof -
  have h: "user sockS = Some (user_of ''S'')" "messageType (chat0 c) \<noteq> Some ''webrtc_signal''"
    for c
    by (simp_all add: sockS_def chat0_def)
  have s: "messageService_sendText env0 (chat0 None) (user_of ''S'') = Inl ''content is required''"
    "messageService_sendText env0 (chat0 (Some ''hi'')) (user_of ''S'') = Inr ''hi''"
    by (simp_all add: env0_def chat0_def)
  have 1: "onSendText env0 5000 st0 sockS (chat0 None)
     = (Error ''content is required'', [],
        st0\<lparr>service_calls := [SendText (chat0 None) (user_of ''S'')]\<rparr>)"
    by (simp add: onSendText_def sockS_def chat0_def st0_def env0_def)
  have m: "map (\<lambda>s. (sid s, ''newMessage'', Message ''hi'' :: string emitted))
             (filter (\<lambda>s. roomName_of (roomId (chat0 (Some ''hi''))) \<in> set (rooms s)) (sockets st0))
     = [(''s1'', ''newMessage'', Message ''hi''), (''c1'', ''newMessage'', Message ''hi''),
        (''c2'', ''newMessage'', Message ''hi''), (''x1'', ''newMessage'', Message ''hi'')]"
    by (simp add: scenario_defs chat0_def)
  from chat_persist_then_broadcast [OF h(1) h(2), of env0 "Some ''hi''" 5000 st0]
    chat_persist_then_broadcast [OF h(1) h(2), of env0 None 5000 st0] s 1 m
  show ?thesis by simp
qed

section \<open>The invariant of the registry\<close>

lemma find_socket_Some:
  "find_socket socks i = Some s \<Longrightarrow> s \<in> set socks \<and> sid s = i"
  by (auto simp: find_socket_def find_Some_iff)

lemma find_socket_None: "find_socket socks i = None \<longleftrightarrow> i \<notin> sid ` set socks"
  by (auto simp: find_socket_def find_None_iff)

lemma find_socket_distinct:
  "distinct (map sid socks) \<Longrightarrow> s \<in> set socks \<Longrightarrow> find_socket socks (sid s) = Some s"
  by (induction socks) (auto simp: find_socket_def)

lemma registry_inv_init: "registry_inv init"
  by (simp add: registry_inv_def init_def connectionsFor_def)

text \<open>A step that only drops socket ids from the registry keeps the invariant.\<close>

lemma registry_inv_shrink:
  assumes "registry_inv st" and "sockets st' = sockets st"
    and "\<forall>u. \<exists>P. connectionsFor st' u = filter P (connectionsFor st u)"
    and "\<forall>u. userSockets st' u = Some [] \<longrightarrow> userSockets st u = Some []"
  shows "registry_inv st'"
proof -
  have e: "userSockets st' [] = None"
  proof (cases "userSockets st' []")
    case (Some ids)
    from assms(3) obtain P where "connectionsFor st' [] = filter P (connectionsFor st [])"
      by blast
    moreover have "connectionsFor st [] = []"
      using assms(1) by (simp add: registry_inv_def connectionsFor_def)
    ultimately have "ids = []" using Some by (simp add: connectionsFor_def)
    with Some assms(4) have "userSockets st [] = Some []" by simp
    with assms(1) show ?thesis by (simp add: registry_inv_def)
  qed simp
  have d: "distinct (connectionsFor st' u)" for u
  proof -
    from assms(3) obtain P where "connectionsFor st' u = filter P (connectionsFor st u)"
      by blast
    with assms(1) show ?thesis by (simp add: registry_inv_def)
  qed
  have m: "\<exists>s\<in>set (sockets st'). sid s = i \<and> (\<exists>p. user s = Some p \<and> userId_of p = Some u)"
    if "i \<in> set (connectionsFor st' u)" for i u
  proof -
    from assms(3) obtain P where "connectionsFor st' u = filter P (connectionsFor st u)"
      by blast
    with that have "i \<in> set (connectionsFor st u)" by simp
    with assms(1,2) show ?thesis by (simp add: registry_inv_def)
  qed
  show ?thesis
    unfolding registry_inv_def
    using assms(1,2,4) e d m by (auto simp: registry_inv_def)
qed

text \<open>A step that keeps the ids and the identities of the sockets keeps the invariant.\<close>

lemma registry_inv_sockets:
  assumes "registry_inv st" and "userSockets st' = userSockets st"
    and "map (\<lambda>s. (sid s, user s)) (sockets st') = map (\<lambda>s. (sid s, user s)) (sockets st)"
  shows "registry_inv st'"
proof -
  have s: "map sid (sockets st') = map sid (sockets st)"
    using arg_cong [OF assms(3), of "map fst"] by (simp add: comp_def)
  have c: "connectionsFor st' u = connectionsFor st u" for u
    using assms(2) by (simp add: connectionsFor_def)
  have m: "\<exists>s'\<in>set (sockets st'). sid s' = sid s \<and> user s' = user s"
    if "s \<in> set (sockets st)" for s
  proof -
    have "(sid s, user s) \<in> set (map (\<lambda>s. (sid s, user s)) (sockets st'))"
      using that unfolding assms(3) by force
    then show ?thesis by auto
  qed
  show ?thesis
    unfolding registry_inv_def
    using assms(1,2) s c m by (simp add: registry_inv_def) metis
qed

lemma sendToUser_shrinks:
  assumes "sendToUser st uid ev d opts = (sent, out, st')"
  shows "sockets st' = sockets st"
    and "\<forall>u. \<exists>P. connectionsFor st' u = filter P (connectionsFor st u)"
    and "\<forall>u. userSockets st' u = Some [] \<longrightarrow> userSockets st u = Some []"
proof -
  from sendToUser_result [OF assms] obtain R where
    s: "sockets st' = sockets st"
    and c: "\<forall>u. connectionsFor st' u =
                (if u = uid then filter (\<lambda>i. i \<notin> R) (connectionsFor st u)
                 else connectionsFor st u)"
    and n: "\<forall>u. userSockets st' u = Some [] \<longrightarrow> userSockets st u = Some []"
    by blast
  show "sockets st' = sockets st" by (rule s)
  show "\<forall>u. userSockets st' u = Some [] \<longrightarrow> userSockets st u = Some []" by (rule n)
  show "\<forall>u. \<exists>P. connectionsFor st' u = filter P (connectionsFor st u)"
  proof
    fix u
    show "\<exists>P. connectionsFor st' u = filter P (connectionsFor st u)"
    proof (cases "u = uid")
      case True
      with c show ?thesis by auto
    next
      case False
      with c have "connectionsFor st' u = filter (\<lambda>i. True) (connectionsFor st u)" by simp
      then show ?thesis by blast
    qed
  qed
qed

lemma sendToUser_inv:
  "registry_inv st \<Longrightarrow> registry_inv (snd (snd (sendToUser st uid ev d opts)))"
  by (cases "sendToUser st uid ev d opts")
     (auto intro: registry_inv_shrink dest: sendToUser_shrinks)

lemma isDuplicateSignal_inv:
  "registry_inv st \<Longrightarrow> registry_inv (snd (isDuplicateSignal e now st t b))"
  by (rule registry_inv_sockets) (simp_all add: isDuplicateSignal_fields)

lemma onSendText_inv:
  fixes e :: "'a env"
  assumes "registry_inv st"
  shows "registry_inv (snd (snd (onSendText e now st client b)))"
proof (cases "user client")
  case None
  with assms show ?thesis by (simp add: onSendText_def)
next
  case (Some u)
  show ?thesis
  proof (cases "messageType b = Some ''webrtc_signal''")
    case True
    show ?thesis
      using assms
      by (simp add: onSendText_signal_state_cases [OF Some True] isDuplicateSignal_inv
            sendToUser_inv)
  next
    case False
    have "registry_inv (st\<lparr>service_calls := x\<rparr>)" for x
      by (rule registry_inv_sockets [OF assms]) simp_all
    with Some False show ?thesis
      by (auto simp: onSendText_def Let_def split: sum.splits)
  qed
qed

lemma onSignal_inv:
  fixes e :: "'a env"
  assumes "registry_inv st"
  shows "registry_inv (snd (snd (onSignal e st client sb)))"
proof -
  have "registry_inv (st\<lparr>service_calls := x\<rparr>)" for x
    by (rule registry_inv_sockets [OF assms]) simp_all
  with assms show ?thesis
    by (auto simp: onSignal_def Let_def split: option.splits sum.splits)
qed

lemma join_leave_keep:
  "map (\<lambda>s. (sid s, user s)) (join i r socks) = map (\<lambda>s. (sid s, user s)) socks"
  "map (\<lambda>s. (sid s, user s)) (leave i r socks) = map (\<lambda>s. (sid s, user s)) socks"
  by (induction socks) (auto simp: join_def leave_def)

lemma onJoinRoom_inv:
  assumes "registry_inv st"
  shows "registry_inv (snd (snd (onJoinRoom st client r :: 'a reply \<times> 'a emission list \<times> state)))"
proof -
  have "registry_inv (st\<lparr>sockets := join i x (sockets st)\<rparr>)" for i x
    by (rule registry_inv_sockets [OF assms]) (simp_all add: join_leave_keep)
  with assms show ?thesis
    by (auto simp: onJoinRoom_def Let_def split: option.splits)
qed

lemma onLeaveRoom_inv:
  assumes "registry_inv st"
  shows "registry_inv (snd (snd (onLeaveRoom st client r :: 'a reply \<times> 'a emission list \<times> state)))"
proof -
  have "registry_inv (st\<lparr>sockets := leave i x (sockets st)\<rparr>)" for i x
    by (rule registry_inv_sockets [OF assms]) (simp_all add: join_leave_keep)
  then show ?thesis
    by (auto simp: onLeaveRoom_def Let_def)
qed

lemma isUserOnline_iff: "isUserOnline st u \<longleftrightarrow> connectionsFor st u \<noteq> []"
  by (simp add: isUserOnline_def connectionsFor_def split: option.splits)

lemma set_user_fresh: "i \<notin> sid ` set socks \<Longrightarrow> set_user i p socks = socks"
  by (induction socks) (auto simp: set_user_def)

text \<open>What a connection does to the state.\<close>

lemma connect_state:
  assumes "find_socket (sockets st) i = None"
  shows "\<exists>x reg.
           step e st (Connect i hs) =
             st\<lparr>sockets := sockets st @ [\<lparr>sid = i, user = x, rooms = []\<rparr>],
                userSockets := (case reg of
                     None \<Rightarrow> userSockets st
                   | Some uid \<Rightarrow> (userSockets st)(uid \<mapsto> set_add i (connectionsFor st uid)))\<rparr> \<and>
           (\<forall>uid. reg = Some uid \<longrightarrow> uid \<noteq> [] \<and> (\<exists>p. x = Some p \<and> userId_of p = Some uid))"
proof -
  have f: "i \<notin> sid ` set (sockets st)" using assms by (simp add: find_socket_None)
  have u: "set_user i p (sockets st @ [\<lparr>sid = i, user = None, rooms = []\<rparr>]) =
             sockets st @ [\<lparr>sid = i, user = Some p, rooms = []\<rparr>]" for p
    using set_user_fresh [OF f, of p] by (simp add: set_user_def)
  let ?c = "\<lambda>x. \<lparr>sid = i, user = x, rooms = []\<rparr>"
  let ?r = "\<lambda>reg. (case reg of
                     None \<Rightarrow> userSockets st
                   | Some uid \<Rightarrow> (userSockets st)(uid \<mapsto> set_add i (connectionsFor st uid)))"
  have stp: "step e st (Connect i hs) =
               handleConnection e (st\<lparr>sockets := sockets st @ [?c None]\<rparr>) (?c None) hs"
    using assms by (simp add: Let_def)
  consider
    (anon) "step e st (Connect i hs) = st\<lparr>sockets := sockets st @ [?c None]\<rparr>"
  | (auth) p where "step e st (Connect i hs) = st\<lparr>sockets := sockets st @ [?c (Some p)]\<rparr>"
  | (reg) p uid where "userId_of p = Some uid" "uid \<noteq> []"
      "step e st (Connect i hs) =
         st\<lparr>sockets := sockets st @ [?c (Some p)],
            userSockets := (userSockets st)(uid \<mapsto> set_add i (connectionsFor st uid))\<rparr>"
  proof (cases "or_js (auth_token hs) (query_token hs)")
    case None
    then show ?thesis by (intro anon) (simp del: step.simps add: stp handleConnection_def)
  next
    case (Some tok)
    show ?thesis
    proof (cases "tok = []")
      case True
      with Some show ?thesis by (intro anon) (simp del: step.simps add: stp handleConnection_def)
    next
      case ne: False
      show ?thesis
      proof (cases "jwtService_verify e tok")
        case None
        with Some ne show ?thesis by (intro anon) (simp del: step.simps add: stp handleConnection_def)
      next
        case p: (Some p)
        show ?thesis
        proof (cases "userId_of p")
          case None
          with Some ne p show ?thesis
            by (intro auth [of p]) (simp del: step.simps add: stp handleConnection_def u)
        next
          case uid: (Some uid)
          show ?thesis
          proof (cases "uid = []")
            case True
            with Some ne p uid show ?thesis
              by (intro auth [of p]) (simp del: step.simps add: stp handleConnection_def u)
          next
            case False
            with Some ne p uid show ?thesis
              by (intro reg [of p uid])
                 (simp_all del: step.simps add: stp handleConnection_def u connectionsFor_def)
          qed
        qed
      qed
    qed
  qed
  then show ?thesis
  proof cases
    case anon
    then have "step e st (Connect i hs) =
                 st\<lparr>sockets := sockets st @ [?c None], userSockets := ?r None\<rparr>"
      by simp
    then show ?thesis by blast
  next
    case (auth p)
    then have "step e st (Connect i hs) =
                 st\<lparr>sockets := sockets st @ [?c (Some p)], userSockets := ?r None\<rparr>"
      by simp
    then show ?thesis by blast
  next
    case (reg p uid)
    then have "step e st (Connect i hs) =
                 st\<lparr>sockets := sockets st @ [?c (Some p)], userSockets := ?r (Some uid)\<rparr>"
      by simp
    with reg(1,2) show ?thesis by blast
  qed
qed

lemma connect_inv:
  assumes "registry_inv st"
  shows "registry_inv (step e st (Connect i hs))"
proof (cases "find_socket (sockets st) i")
  case (Some s)
  with assms show ?thesis by simp
next
  case None
  then have f: "i \<notin> sid ` set (sockets st)" by (simp add: find_socket_None)
  from connect_state [OF None, of e hs] obtain x reg where
    st: "step e st (Connect i hs) =
             st\<lparr>sockets := sockets st @ [\<lparr>sid = i, user = x, rooms = []\<rparr>],
                userSockets := (case reg of
                     None \<Rightarrow> userSockets st
                   | Some uid \<Rightarrow> (userSockets st)(uid \<mapsto> set_add i (connectionsFor st uid)))\<rparr>"
    and r: "\<forall>uid. reg = Some uid \<longrightarrow> uid \<noteq> [] \<and> (\<exists>p. x = Some p \<and> userId_of p = Some uid)"
    by blast
  have old: "\<exists>s\<in>set (sockets st). sid s = j \<and> (\<exists>p. user s = Some p \<and> userId_of p = Some u)"
    if "j \<in> set (connectionsFor st u)" for j u
    using assms that by (simp add: registry_inv_def)
  show ?thesis
  proof (cases reg)
    case None
    with st have "step e st (Connect i hs) =
                    st\<lparr>sockets := sockets st @ [\<lparr>sid = i, user = x, rooms = []\<rparr>]\<rparr>"
      by simp
    then show ?thesis
      using assms f by (auto simp: registry_inv_def connectionsFor_def)
  next
    case (Some uid)
    with r obtain p where p: "uid \<noteq> []" "x = Some p" "userId_of p = Some uid" by blast
    have c: "connectionsFor (step e st (Connect i hs)) u =
               (if u = uid then set_add i (connectionsFor st uid) else connectionsFor st u)"
      for u
      using st Some by (simp add: connectionsFor_def)
    have s: "sockets (step e st (Connect i hs)) =
               sockets st @ [\<lparr>sid = i, user = Some p, rooms = []\<rparr>]"
      using st p by simp
    have us: "userSockets (step e st (Connect i hs)) =
               (userSockets st)(uid \<mapsto> set_add i (connectionsFor st uid))"
      using st Some by simp
    have 1: "distinct (map sid (sockets (step e st (Connect i hs))))"
      using assms f s by (auto simp: registry_inv_def)
    have 2: "userSockets (step e st (Connect i hs)) u \<noteq> Some []" for u
      using assms us by (auto simp: registry_inv_def set_add_def)
    have 3: "userSockets (step e st (Connect i hs)) [] = None"
      using assms us p(1) by (auto simp: registry_inv_def)
    have 4: "distinct (connectionsFor (step e st (Connect i hs)) u)" for u
      using assms c by (auto simp: registry_inv_def set_add_def)
    have 5: "\<exists>s\<in>set (sockets (step e st (Connect i hs))).
               sid s = j \<and> (\<exists>p. user s = Some p \<and> userId_of p = Some u)"
      if "j \<in> set (connectionsFor (step e st (Connect i hs)) u)" for j u
    proof (cases "j \<in> set (connectionsFor st u)")
      case True
      from old [OF this] s show ?thesis by auto
    next
      case False
      with that c [of u] have "u = uid" "j = i"
        by (auto simp: set_add_def split: if_splits)
      with s p show ?thesis by auto
    qed
    show ?thesis
      unfolding registry_inv_def using 1 2 3 4 5 by blast
  qed
qed

text \<open>What a disconnect does to the state, when the invariant holds.\<close>

lemma distinct_sid_eq:
  "distinct (map sid socks) \<Longrightarrow> s \<in> set socks \<Longrightarrow> s' \<in> set socks \<Longrightarrow> sid s = sid s' \<Longrightarrow>
     s = s'"
  by (meson distinct_map inj_on_def)

lemma disconnect_state:
  assumes "registry_inv st" and "find_socket (sockets st) i = Some client"
  shows "connectionsFor (step e st (Disconnect i)) u = removeAll i (connectionsFor st u)"
    and "sockets (step e st (Disconnect i)) = filter (\<lambda>s. sid s \<noteq> i) (sockets st)"
    and "userSockets (step e st (Disconnect i)) u \<noteq> Some []"
proof -
  from find_socket_Some [OF assms(2)] have cl: "client \<in> set (sockets st)" "sid client = i"
    by simp_all
  have d: "distinct (map sid (sockets st))" using assms(1) by (simp add: registry_inv_def)
  have ne: "userSockets st v \<noteq> Some []" for v
    using assms(1) by (simp add: registry_inv_def)
  have K: "\<exists>p. user client = Some p \<and> userId_of p = Some v \<and> v \<noteq> []"
    if "i \<in> set (connectionsFor st v)" for v
  proof -
    have "\<forall>u. \<forall>j\<in>set (connectionsFor st u).
            \<exists>s\<in>set (sockets st). sid s = j \<and> (\<exists>p. user s = Some p \<and> userId_of p = Some u)"
      using assms(1) by (simp add: registry_inv_def)
    from this [rule_format, OF that] obtain s p where
      s: "s \<in> set (sockets st)" "sid s = i" "user s = Some p" "userId_of p = Some v"
      by blast
    from distinct_sid_eq [OF d s(1) cl(1)] s(2) cl(2) have "s = client" by simp
    moreover have "v \<noteq> []"
      using assms(1) that by (auto simp: registry_inv_def connectionsFor_def)
    ultimately show ?thesis using s by auto
  qed
  let ?st = "st\<lparr>sockets := filter (\<lambda>s. sid s \<noteq> i) (sockets st)\<rparr>"
  have st: "step e st (Disconnect i) = handleDisconnect ?st client"
    using assms(2) by simp
  show "sockets (step e st (Disconnect i)) = filter (\<lambda>s. sid s \<noteq> i) (sockets st)"
    unfolding st by (simp add: handleDisconnect_def Let_def split: option.splits)
  consider
    (keep) "handleDisconnect ?st client = ?st" "\<forall>v. i \<notin> set (connectionsFor st v)"
  | (drop) p uid ids where "user client = Some p" "userId_of p = Some uid" "uid \<noteq> []"
      "userSockets st uid = Some ids"
      "handleDisconnect ?st client =
         (if removeAll i ids = [] then ?st\<lparr>userSockets := (userSockets st)(uid := None)\<rparr>
          else ?st\<lparr>userSockets := (userSockets st)(uid \<mapsto> removeAll i ids)\<rparr>)"
  proof (cases "user client")
    case None
    then have "handleDisconnect ?st client = ?st" by (simp add: handleDisconnect_def)
    moreover have "\<forall>v. i \<notin> set (connectionsFor st v)" using K None by auto
    ultimately show ?thesis by (rule keep)
  next
    case (Some p)
    show ?thesis
    proof (cases "userId_of p")
      case None
      with Some have "handleDisconnect ?st client = ?st" by (simp add: handleDisconnect_def)
      moreover have "\<forall>v. i \<notin> set (connectionsFor st v)" using K Some None by auto
      ultimately show ?thesis by (rule keep)
    next
      case uid: (Some uid)
      show ?thesis
      proof (cases "uid = [] \<or> userSockets st uid = None")
        case True
        with Some uid have "handleDisconnect ?st client = ?st"
          by (auto simp: handleDisconnect_def)
        moreover have "i \<notin> set (connectionsFor st v)" for v
        proof
          assume a: "i \<in> set (connectionsFor st v)"
          from K [OF a] Some uid have "v = uid" "v \<noteq> []" by auto
          with True a show False by (auto simp: connectionsFor_def)
        qed
        ultimately show ?thesis by (intro keep) simp_all
      next
        case False
        then obtain ids where i: "uid \<noteq> []" "userSockets st uid = Some ids" by auto
        with Some uid cl(2) have
          "handleDisconnect ?st client =
             (if removeAll i ids = [] then ?st\<lparr>userSockets := (userSockets st)(uid := None)\<rparr>
              else ?st\<lparr>userSockets := (userSockets st)(uid \<mapsto> removeAll i ids)\<rparr>)"
          by (simp add: handleDisconnect_def set_delete_def Let_def)
        with Some uid i show ?thesis by (rule drop)
      qed
    qed
  qed
  then have both:
    "connectionsFor (step e st (Disconnect i)) u = removeAll i (connectionsFor st u) \<and>
     userSockets (step e st (Disconnect i)) u \<noteq> Some []"
  proof cases
    case keep
    then show ?thesis unfolding st using ne by (simp add: connectionsFor_def)
  next
    case (drop p uid ids)
    have "i \<notin> set (connectionsFor st u)" if "u \<noteq> uid"
      using K [of u] drop(1,2) that by auto
    then show ?thesis
      unfolding st using drop(4,5) ne by (auto simp: connectionsFor_def)
  qed
  from both show
    "connectionsFor (step e st (Disconnect i)) u = removeAll i (connectionsFor st u)" ..
  from both show "userSockets (step e st (Disconnect i)) u \<noteq> Some []" ..
qed

lemma registry_inv_live:
  assumes "registry_inv st" and "i \<in> set (connectionsFor st u)"
  shows "\<exists>s. find_socket (sockets st) i = Some s \<and> (\<exists>p. user s = Some p \<and> userId_of p = Some u)"
proof -
  have "\<forall>u. \<forall>j\<in>set (connectionsFor st u).
          \<exists>s\<in>set (sockets st). sid s = j \<and> (\<exists>p. user s = Some p \<and> userId_of p = Some u)"
    and d: "distinct (map sid (sockets st))"
    using assms(1) by (simp_all add: registry_inv_def)
  from this(1) [rule_format, OF assms(2)] obtain s p where
    s: "s \<in> set (sockets st)" "sid s = i" "user s = Some p" "userId_of p = Some u"
    by blast
  from find_socket_distinct [OF d s(1)] s show ?thesis by auto
qed

lemma disconnect_inv:
  assumes "registry_inv st"
  shows "registry_inv (step e st (Disconnect i))"
proof (cases "find_socket (sockets st) i")
  case None
  with assms show ?thesis by simp
next
  case (Some client)
  note d = disconnect_state [OF assms Some, of e]
  have 1: "distinct (map sid (sockets (step e st (Disconnect i))))"
    unfolding d(2) using assms by (simp add: registry_inv_def distinct_map_filter)
  have e0: "connectionsFor st [] = []"
    using assms by (simp add: registry_inv_def connectionsFor_def)
  have 3: "userSockets (step e st (Disconnect i)) [] = None"
  proof (cases "userSockets (step e st (Disconnect i)) []")
    case (Some ids)
    with d(1) [of "[]"] e0 have "ids = []" by (simp del: step.simps add: connectionsFor_def)
    with Some d(3) [of "[]"] show ?thesis by simp
  qed simp
  have 4: "distinct (connectionsFor (step e st (Disconnect i)) u)" for u
    unfolding d(1) using assms by (simp add: registry_inv_def distinct_removeAll)
  have 5: "\<exists>s\<in>set (sockets (step e st (Disconnect i))).
             sid s = j \<and> (\<exists>p. user s = Some p \<and> userId_of p = Some u)"
    if "j \<in> set (connectionsFor (step e st (Disconnect i)) u)" for j u
  proof -
    from that have j: "j \<noteq> i" "j \<in> set (connectionsFor st u)" unfolding d(1) by simp_all
    from registry_inv_live [OF assms j(2)] obtain s p where
      "find_socket (sockets st) j = Some s" "user s = Some p" "userId_of p = Some u"
      by blast
    with find_socket_Some [of "sockets st" j s] j(1) show ?thesis
      unfolding d(2) by auto
  qed
  show ?thesis
    unfolding registry_inv_def using 1 d(3) 3 4 5 by blast
qed

lemma step_inv:
  fixes e :: "'a env"
  assumes "registry_inv st"
  shows "registry_inv (step e st ev)"
proof (cases ev)
  case (Connect i hs)
  with assms show ?thesis by (simp only: connect_inv)
next
  case (Disconnect i)
  with assms show ?thesis by (simp only: disconnect_inv)
next
  case (JoinRoom i r)
  with assms show ?thesis by (auto simp: onJoinRoom_inv split: option.splits)
next
  case (LeaveRoom i r)
  with assms show ?thesis by (auto simp: onLeaveRoom_inv split: option.splits)
next
  case (SendTextEv i b now)
  with assms show ?thesis by (auto simp: onSendText_inv split: option.splits)
next
  case (SignalEv i sb)
  with assms show ?thesis by (auto simp: onSignal_inv split: option.splits)
next
  case (SendToUserEv uid n d opts)
  with assms show ?thesis by (simp add: sendMessageToUser_def sendToUser_inv)
qed

lemma run_inv:
  fixes e :: "'a env"
  shows "registry_inv (run e evs)"
proof (induction evs rule: rev_induct)
  case Nil
  show ?case by (simp add: run_def registry_inv_init)
next
  case (snoc ev evs)
  then show ?case by (simp add: run_def step_inv)
qed

text \<open>
  C4. In every state the gateway reaches from its initial state, no user id maps to an
  empty set of sockets and a socket id is registered under at most one user id. After
  the disconnect of a socket its id is registered under no user id, and a user whose
  only registered socket it was is not online.
\<close>

theorem registry_invariant:
  fixes e :: "'a env"
  assumes "st = run e evs"
  shows "(\<forall>u. userSockets st u \<noteq> Some []) \<and>
         (\<forall>u v i. i \<in> set (connectionsFor st u) \<and> i \<in> set (connectionsFor st v) \<longrightarrow> u = v) \<and>
         (\<forall>u. isUserOnline st u \<longleftrightarrow> connectionsFor st u \<noteq> []) \<and>
         (\<forall>i u. i \<notin> set (connectionsFor (step e st (Disconnect i)) u)) \<and>
         (\<forall>i u. connectionsFor st u = [i] \<longrightarrow>
                 connectionsFor (step e st (Disconnect i)) u = [] \<and>
                 \<not> isUserOnline (step e st (Disconnect i)) u)"
proof -
  have inv: "registry_inv st" unfolding assms by (rule run_inv)
  have 1: "\<forall>u. userSockets st u \<noteq> Some []" using inv by (simp add: registry_inv_def)
  have 2: "u = v" if "i \<in> set (connectionsFor st u)" "i \<in> set (connectionsFor st v)" for u v i
    using registry_inv_live [OF inv that(1)] registry_inv_live [OF inv that(2)] by auto
  have live: "find_socket (sockets st) i \<noteq> None" if "i \<in> set (connectionsFor st u)" for i u
    using registry_inv_live [OF inv that] by auto
  have 4: "i \<notin> set (connectionsFor (step e st (Disconnect i)) u)" for i u
  proof (cases "find_socket (sockets st) i")
    case None
    with live [of i u] show ?thesis by auto
  next
    case (Some client)
    show ?thesis unfolding disconnect_state(1) [OF inv Some] by simp
  qed
  have 5: "connectionsFor (step e st (Disconnect i)) u = []" if "connectionsFor st u = [i]"
    for i u
  proof -
    from that live [of i u] obtain client where c: "find_socket (sockets st) i = Some client"
      by auto
    show ?thesis unfolding disconnect_state(1) [OF inv c] using that by simp
  qed
  show ?thesis
    unfolding isUserOnline_iff using 1 2 4 5 by blast
qed

lemmas run_defs =
  run_def init_def handleConnection_def handleDisconnect_def hs0_def or_js_def truthy_str_def
  env0_def userId_of_def find_socket_def set_user_def set_add_def set_delete_def
  connectionsFor_def isUserOnline_def user_of_def Let_def

theorem registry_invariant_witness:
  "connectionsFor (run env0 [Connect ''c1'' (hs0 ''U''), Connect ''c2'' (hs0 ''U''),
                             Connect ''v1'' (hs0 ''V'')]) ''U'' = [''c1'', ''c2''] \<and>
   connectionsFor (step env0 (run env0 [Connect ''c1'' (hs0 ''U''), Connect ''c2'' (hs0 ''U''),
                                        Connect ''v1'' (hs0 ''V'')]) (Disconnect ''c2'')) ''U''
     = [''c1''] \<and>
   isUserOnline (step env0 (run env0 [Connect ''c1'' (hs0 ''U''), Connect ''c2'' (hs0 ''U''),
                                      Connect ''v1'' (hs0 ''V'')]) (Disconnect ''c2'')) ''U'' \<and>
   connectionsFor (run env0 [Connect ''c1'' (hs0 ''U''), Connect ''c2'' (hs0 ''U''),
                             Connect ''v1'' (hs0 ''V'')]) ''V'' = [''v1''] \<and>
   userSockets (step env0 (run env0 [Connect ''c1'' (hs0 ''U''), Connect ''c2'' (hs0 ''U''),
                                     Connect ''v1'' (hs0 ''V'')]) (Disconnect ''v1'')) ''V''
     = None \<and>
   \<not> isUserOnline (step env0 (run env0 [Connect ''c1'' (hs0 ''U''), Connect ''c2'' (hs0 ''U''),
                                        Connect ''v1'' (hs0 ''V'')]) (Disconnect ''v1'')) ''V''"
proof -
  let ?evs = "[Connect ''c1'' (hs0 ''U''), Connect ''c2'' (hs0 ''U''),
               Connect ''v1'' (hs0 ''V'') :: string event]"
  have c: "connectionsFor (run env0 ?evs) ''U'' = [''c1'', ''c2'']"
    "connectionsFor (run env0 ?evs) ''V'' = [''v1'']"
    by (simp_all add: run_defs)
  have d: "connectionsFor (step env0 (run env0 ?evs) (Disconnect ''c2'')) ''U'' = [''c1'']"
    "userSockets (step env0 (run env0 ?evs) (Disconnect ''v1'')) ''V'' = None"
    by (simp_all add: run_defs)
  note t = registry_invariant [OF refl, of env0 ?evs]
  from t have "isUserOnline (step env0 (run env0 ?evs) (Disconnect ''c2'')) ''U'' \<longleftrightarrow>
         connectionsFor (step env0 (run env0 ?evs) (Disconnect ''c2'')) ''U'' \<noteq> []"
    by (simp add: isUserOnline_iff)
  with d(1) have o: "isUserOnline (step env0 (run env0 ?evs) (Disconnect ''c2'')) ''U''"
    by simp
  from t c(2) have "\<not> isUserOnline (step env0 (run env0 ?evs) (Disconnect ''v1'')) ''V''"
    by blast
  with c d o show ?thesis by blast
qed

end
